theory Spec2Isabelle
  imports Complex_Main "HOL-Library.Sublist"
begin

section \<open>ArthaFlow: the CSV bank-statement import pipeline\<close>

text \<open>
  The development embeds the import page of the dashboard (the component \<open>Upload\<close>):
  the header matcher, the tokenizer, the row mapper, the validator, the date parser, the
  commit step and the session that drives them.

  JavaScript strings are modelled as \<^typ>\<open>string\<close>: a character is a code unit below
  256, so the texts are those of the Latin-1 range. On these, \<open>\d\<close> is \<open>0\<close> to \<open>9\<close>;
  \<open>\s\<close> and the characters removed by \<open>trim\<close> are tab, line feed, vertical tab, form
  feed, carriage return, space and the no-break space U+00A0; and \<open>toLowerCase\<close> maps
  \<open>A\<close> to \<open>Z\<close> and the capital letters U+00C0 to U+00DE, the multiplication sign
  U+00D7 apart, onto the letters 32 places further.
\<close>

subsection \<open>Strings\<close>

definition is_digit :: "char \<Rightarrow> bool" where
  "is_digit c = (c \<in> set ''0123456789'')"

definition is_whitespace :: "char \<Rightarrow> bool" where
  "is_whitespace c =
     (c \<in> set [CHR 0x09, CHR 0x0A, CHR 0x0B, CHR 0x0C, CHR 0x0D, CHR 0x20, CHR 0xA0])"

definition upper_case :: string where
  "upper_case =
     ''ABCDEFGHIJKLMNOPQRSTUVWXYZ'' @
      [CHR 0xC0, CHR 0xC1, CHR 0xC2, CHR 0xC3, CHR 0xC4, CHR 0xC5, CHR 0xC6, CHR 0xC7,
       CHR 0xC8, CHR 0xC9, CHR 0xCA, CHR 0xCB, CHR 0xCC, CHR 0xCD, CHR 0xCE, CHR 0xCF,
       CHR 0xD0, CHR 0xD1, CHR 0xD2, CHR 0xD3, CHR 0xD4, CHR 0xD5, CHR 0xD6, CHR 0xD8,
       CHR 0xD9, CHR 0xDA, CHR 0xDB, CHR 0xDC, CHR 0xDD, CHR 0xDE]"

definition lower_case :: string where
  "lower_case =
     ''abcdefghijklmnopqrstuvwxyz'' @
      [CHR 0xE0, CHR 0xE1, CHR 0xE2, CHR 0xE3, CHR 0xE4, CHR 0xE5, CHR 0xE6, CHR 0xE7,
       CHR 0xE8, CHR 0xE9, CHR 0xEA, CHR 0xEB, CHR 0xEC, CHR 0xED, CHR 0xEE, CHR 0xEF,
       CHR 0xF0, CHR 0xF1, CHR 0xF2, CHR 0xF3, CHR 0xF4, CHR 0xF5, CHR 0xF6, CHR 0xF8,
       CHR 0xF9, CHR 0xFA, CHR 0xFB, CHR 0xFC, CHR 0xFD, CHR 0xFE]"

definition toLowerChar :: "char \<Rightarrow> char" where
  "toLowerChar c =
     (case map_of (zip upper_case lower_case) c of
        Some l \<Rightarrow> l
      | None \<Rightarrow> c)"

definition toLowerCase :: "string \<Rightarrow> string" where
  "toLowerCase s = map toLowerChar s"

text \<open>\<open>s.trim()\<close>: white space is dropped at both ends.\<close>

definition trim :: "string \<Rightarrow> string" where
  "trim s = rev (dropWhile is_whitespace (rev (dropWhile is_whitespace s)))"

text \<open>
  \<open>s.split(sep)\<close> for a separator that matches one character: the pieces between the
  separators, empty pieces included, so the result of splitting the empty string is the
  list holding one empty piece.
\<close>

fun split_on :: "(char \<Rightarrow> bool) \<Rightarrow> string \<Rightarrow> string list" where
  "split_on sep [] = [[]]"
| "split_on sep (c # cs) =
     (if sep c then [] # split_on sep cs
      else (case split_on sep cs of
              [] \<Rightarrow> [[c]]
            | p # ps \<Rightarrow> (c # p) # ps))"

text \<open>\<open>hay.includes(needle)\<close>: the needle occurs as a contiguous piece of the hay.\<close>

definition str_includes :: "string \<Rightarrow> string \<Rightarrow> bool" where
  "str_includes hay needle = sublist needle hay"

text \<open>
  Truthiness of a value that is a string or \<open>undefined\<close>: \<open>undefined\<close> and the empty
  string are falsy. \<open>or_else v d\<close> is \<open>v || d\<close>.
\<close>

definition truthy :: "string option \<Rightarrow> bool" where
  "truthy v = (case v of None \<Rightarrow> False | Some s \<Rightarrow> s \<noteq> [])"

definition or_else :: "string option \<Rightarrow> string \<Rightarrow> string" where
  "or_else v d = (case v of None \<Rightarrow> d | Some s \<Rightarrow> if s \<noteq> [] then s else d)"

subsection \<open>Header matcher\<close>

text \<open>\<open>h.toLowerCase().replace(/[_\s]/g, '')\<close>\<close>

definition normalize :: "string \<Rightarrow> string" where
  "normalize h = filter (\<lambda>c. \<not> (c = CHR ''_'' \<or> is_whitespace c)) (toLowerCase h)"

definition exact_match :: "string \<Rightarrow> string \<Rightarrow> bool" where
  "exact_match normalizedTarget h = (normalize h = normalizedTarget)"

definition partial_match :: "string \<Rightarrow> string \<Rightarrow> bool" where
  "partial_match normalizedTarget h =
     (str_includes (normalize h) normalizedTarget \<or> str_includes normalizedTarget (normalize h))"

definition findBestMatchingHeader :: "string list \<Rightarrow> string \<Rightarrow> string" where
  "findBestMatchingHeader headers targetHeader =
     (let normalizedTarget = normalize targetHeader;
          exactMatch = find (exact_match normalizedTarget) headers;
          partialMatch = find (partial_match normalizedTarget) headers
      in case exactMatch of
           Some h \<Rightarrow> if truthy exactMatch then h else or_else partialMatch []
         | None \<Rightarrow> or_else partialMatch [])"

subsection \<open>Tokenizer\<close>

datatype error = Error string | TypeError | RangeError

text \<open>
  The character loop of \<open>parseCsvLine\<close>: the rest of the line, the field being
  accumulated, the \<open>inQuotes\<close> flag and the fields pushed so far.
\<close>

fun scan_line :: "string \<Rightarrow> string \<Rightarrow> bool \<Rightarrow> string list \<Rightarrow> string list" where
  "scan_line [] current inQuotes result = result @ [trim current]"
| "scan_line (c # cs) current inQuotes result =
     (if c = CHR 0x22 then scan_line cs current (\<not> inQuotes) result
      else if c = CHR '','' \<and> \<not> inQuotes then scan_line cs [] inQuotes (result @ [trim current])
      else scan_line cs (current @ [c]) inQuotes result)"

text \<open>\<open>val.replace(/^"|"$/g, '')\<close>: one leading and one trailing double quote go.\<close>

definition strip_quotes :: "string \<Rightarrow> string" where
  "strip_quotes val =
     (let v1 = (case val of [] \<Rightarrow> [] | c # cs \<Rightarrow> if c = CHR 0x22 then cs else val)
      in if v1 \<noteq> [] \<and> last v1 = CHR 0x22 then butlast v1 else v1)"

definition parseCsvLine :: "string \<Rightarrow> string list" where
  "parseCsvLine line = map (\<lambda>val. trim (strip_quotes val)) (scan_line line [] False [])"

text \<open>The lines of the text that are not blank, in order.\<close>

definition nonblank_lines :: "string \<Rightarrow> string list" where
  "nonblank_lines text = filter (\<lambda>line. trim line \<noteq> []) (split_on (\<lambda>c. c = CHR 0x0A) text)"

text \<open>The loop over the data lines: a row is pushed when it is as long as the headers.\<close>

fun collect_rows :: "string list \<Rightarrow> string list \<Rightarrow> string list list \<Rightarrow> string list list" where
  "collect_rows headers [] data = data"
| "collect_rows headers (line # rest) data =
     (let rowData = parseCsvLine line
      in if length rowData = length headers then collect_rows headers rest (data @ [rowData])
         else collect_rows headers rest data)"

definition parseRawCSV :: "string \<Rightarrow> error + (string list \<times> string list list)" where
  "parseRawCSV text =
     (let lines = nonblank_lines text
      in if length lines < 2
         then Inl (Error ''CSV file must contain at least a header row and one data row'')
         else (let headerLine = hd lines;
                   headers = parseCsvLine headerLine
               in Inr (headers, collect_rows headers (tl lines) [])))"

subsection \<open>Numbers and dates of the host language\<close>

text \<open>
  A Number that holds an integer or \<open>NaN\<close> is an \<^typ>\<open>int option\<close>, \<open>None\<close> being
  \<open>NaN\<close>. \<open>parseInt\<close> reads the leading decimal digits; the pieces that reach it hold
  nothing but digits. Integers are unbounded here: a value too large for a double to hold
  exactly is far outside the range of dates, where \<open>new_Date\<close> fails anyway.
\<close>

definition digit_val :: "char \<Rightarrow> nat" where
  "digit_val c =
     (case map_of (zip ''0123456789'' [0, 1, 2, 3, 4, 5, 6, 7, 8, 9]) c of
        Some n \<Rightarrow> n
      | None \<Rightarrow> 0)"

definition nat_of_digits :: "string \<Rightarrow> nat" where
  "nat_of_digits ds = foldl (\<lambda>n c. 10 * n + digit_val c) 0 ds"

definition parseInt :: "string \<Rightarrow> int option" where
  "parseInt s =
     (let ds = takeWhile is_digit s
      in if ds = [] then None else Some (int (nat_of_digits ds)))"

definition minus_one :: "int option \<Rightarrow> int option" where
  "minus_one n = map_option (\<lambda>k. k - 1) n"

text \<open>\<open>a === b\<close> on Numbers: \<open>NaN\<close> equals nothing.\<close>

definition strict_eq :: "int option \<Rightarrow> int option \<Rightarrow> bool" where
  "strict_eq a b = (case (a, b) of (Some x, Some y) \<Rightarrow> x = y | _ \<Rightarrow> False)"

text \<open>
  A valid Date, read through \<open>getFullYear\<close>, \<open>getMonth\<close> (0 to 11) and \<open>getDate\<close>; an
  invalid Date is \<open>None\<close>. The local time zone is taken to be UTC, so that local
  midnight of a day is a time of that same day and the range of valid times is counted in
  whole days.
\<close>

record jsdate =
  fullYear :: int
  month0 :: int
  dayOfMonth :: int

definition leap_year :: "int \<Rightarrow> bool" where
  "leap_year y = (y mod 4 = 0 \<and> (y mod 100 \<noteq> 0 \<or> y mod 400 = 0))"

definition days_in_month :: "int \<Rightarrow> int \<Rightarrow> int" where
  "days_in_month y m =
     (if m = 1 then (if leap_year y then 29 else 28)
      else if m = 3 \<or> m = 5 \<or> m = 8 \<or> m = 10 then 30
      else 31)"

text \<open>The day number of 1 January of year \<open>y\<close>, counted from 1 January 1970.\<close>

definition DayFromYear :: "int \<Rightarrow> int" where
  "DayFromYear y = 365 * (y - 1970) + (y - 1969) div 4 - (y - 1901) div 100 + (y - 1601) div 400"

definition days_before_month :: "int \<Rightarrow> int \<Rightarrow> int" where
  "days_before_month y m = sum_list (map (days_in_month y) [0..m - 1])"

text \<open>
  \<open>MakeDay\<close>: months beyond the year carry into the year, and the day of the month is
  added to the day number of the first of the month, whatever its size.
\<close>

definition MakeDay :: "int \<Rightarrow> int \<Rightarrow> int \<Rightarrow> int" where
  "MakeDay year month date =
     (let ym = year + month div 12;
          mn = month mod 12
      in DayFromYear ym + days_before_month ym mn + date - 1)"

text \<open>
  The calendar fields of the day that lies \<open>d - 1\<close> days after the first of month \<open>m\<close>
  of year \<open>y\<close>: days beyond the end of a month roll into the following months, days
  before the first roll into the preceding ones.
\<close>

function roll_forward :: "int \<Rightarrow> int \<Rightarrow> int \<Rightarrow> jsdate" where
  "roll_forward y m d =
     (if days_in_month y m < d
      then (if m = 11 then roll_forward (y + 1) 0 (d - days_in_month y m)
            else roll_forward y (m + 1) (d - days_in_month y m))
      else \<lparr>fullYear = y, month0 = m, dayOfMonth = d\<rparr>)"
  by pat_completeness auto
termination
  by (relation "measure (\<lambda>(y, m, d). nat d)") (auto simp: days_in_month_def split: if_splits)

function roll_back :: "int \<Rightarrow> int \<Rightarrow> int \<Rightarrow> jsdate" where
  "roll_back y m d =
     (if d < 1
      then (if m = 0 then roll_back (y - 1) 11 (d + days_in_month (y - 1) 11)
            else roll_back y (m - 1) (d + days_in_month y (m - 1)))
      else \<lparr>fullYear = y, month0 = m, dayOfMonth = d\<rparr>)"
  by pat_completeness auto
termination
  by (relation "measure (\<lambda>(y, m, d). nat (1 - d))") (auto simp: days_in_month_def split: if_splits)

declare roll_forward.simps [simp del] roll_back.simps [simp del]

definition calendar_fields :: "int \<Rightarrow> int \<Rightarrow> int \<Rightarrow> jsdate" where
  "calendar_fields y m d = (if d < 1 then roll_back y m d else roll_forward y m d)"

text \<open>
  \<open>new Date(year, month, day)\<close>: \<open>NaN\<close> in any place gives an invalid Date, a year from
  0 to 99 stands for 1900 plus that year, and a date more than 100,000,000 days away from
  1 January 1970 is invalid.
\<close>

definition new_Date :: "int option \<Rightarrow> int option \<Rightarrow> int option \<Rightarrow> jsdate option" where
  "new_Date year month day =
     (case (year, month, day) of
        (Some y, Some m, Some d) \<Rightarrow>
          (let yr = (if 0 \<le> y \<and> y \<le> 99 then 1900 + y else y)
           in if 100000000 < \<bar>MakeDay yr m d\<bar> then None
              else Some (calendar_fields (yr + m div 12) (m mod 12) d))
      | _ \<Rightarrow> None)"

definition getFullYear :: "jsdate option \<Rightarrow> int option" where
  "getFullYear date = map_option fullYear date"

definition getMonth :: "jsdate option \<Rightarrow> int option" where
  "getMonth date = map_option month0 date"

definition getDate :: "jsdate option \<Rightarrow> int option" where
  "getDate date = map_option dayOfMonth date"

subsection \<open>Date parser\<close>

text \<open>The \<open>switch\<close> on the format: year, month (0-indexed) and day, or no known format.\<close>

definition date_components ::
  "string \<Rightarrow> string list \<Rightarrow> (int option \<times> int option \<times> int option) option" where
  "date_components format parts =
     (if format = ''YYYY-MM-DD''
      then Some (parseInt (parts ! 0), minus_one (parseInt (parts ! 1)), parseInt (parts ! 2))
      else if format = ''MM/DD/YYYY''
      then Some (parseInt (parts ! 2), minus_one (parseInt (parts ! 0)), parseInt (parts ! 1))
      else if format = ''DD/MM/YYYY''
      then Some (parseInt (parts ! 2), minus_one (parseInt (parts ! 1)), parseInt (parts ! 0))
      else None)"

definition is_date_char :: "char \<Rightarrow> bool" where
  "is_date_char c = (is_digit c \<or> c \<in> set ''/.-'')"

definition is_date_separator :: "char \<Rightarrow> bool" where
  "is_date_separator c = (c \<in> set ''-/.'')"

text \<open>The result is the Date, or \<open>None\<close> for \<open>null\<close>.\<close>

definition parseDate :: "string \<Rightarrow> string \<Rightarrow> jsdate option" where
  "parseDate dateStr format =
     (let cleanDateStr = filter is_date_char dateStr;
          parts = split_on is_date_separator cleanDateStr
      in if length parts \<noteq> 3 then None
         else (case date_components format parts of
                 None \<Rightarrow> None
               | Some (year, month, day) \<Rightarrow>
                   (let date = new_Date year month day
                    in if strict_eq (getFullYear date) year \<and>
                          strict_eq (getMonth date) month \<and>
                          strict_eq (getDate date) day
                       then date else None)))"

subsection \<open>Amounts\<close>

text \<open>
  The Number read from an amount is \<open>NaN\<close> or the exact decimal value of the text, as a
  rational; rounding to the nearest double and the sign of zero are left out.
  \<open>parseFloat\<close> is given on the texts that reach it, which hold digits, \<open>.\<close> and \<open>-\<close>
  only: an optional minus sign, then digits with an optional fraction, or a fraction
  alone; whatever follows is ignored, and a text that starts otherwise is \<open>NaN\<close>.
\<close>

datatype jsnum = NaN | Num rat

definition is_amount_char :: "char \<Rightarrow> bool" where
  "is_amount_char c = (is_digit c \<or> c = CHR ''.'' \<or> c = CHR ''-'')"

definition parseFloat :: "string \<Rightarrow> jsnum" where
  "parseFloat s =
     (let negative = (case s of [] \<Rightarrow> False | c # cs \<Rightarrow> c = CHR ''-'');
          body = (if negative then tl s else s);
          intPart = takeWhile is_digit body;
          rest = dropWhile is_digit body;
          fracPart = (case rest of [] \<Rightarrow> [] | c # cs \<Rightarrow> if c = CHR ''.'' then takeWhile is_digit cs else [])
      in if intPart = [] \<and> fracPart = [] then NaN
         else (let magnitude = of_nat (nat_of_digits (intPart @ fracPart)) / 10 ^ length fracPart
               in Num (if negative then - magnitude else magnitude)))"

definition isNaN :: "jsnum \<Rightarrow> bool" where
  "isNaN n = (n = NaN)"

definition Math_abs :: "jsnum \<Rightarrow> jsnum" where
  "Math_abs n = (case n of NaN \<Rightarrow> NaN | Num r \<Rightarrow> Num \<bar>r\<bar>)"

definition negate :: "jsnum \<Rightarrow> jsnum" where
  "negate n = (case n of NaN \<Rightarrow> NaN | Num r \<Rightarrow> Num (- r))"

text \<open>\<open>parseFloat(amount.replace(/[^\d.-]/g, ''))\<close>\<close>

definition parse_amount :: "string \<Rightarrow> jsnum" where
  "parse_amount a = parseFloat (filter is_amount_char a)"

subsection \<open>Row mapper\<close>

text \<open>
  A \<open>CsvTransaction\<close> is one object: the five fields \<open>date\<close>, \<open>amount\<close>,
  \<open>description\<close>, \<open>category\<close> and \<open>type\<close> and the additional columns are properties
  of the same object, keyed by name. A property holds a string, or \<open>undefined\<close> when it
  was read from a row beyond its last cell.
\<close>

datatype jsval = Undefined | Str string

type_synonym CsvTransaction = "string \<rightharpoonup> jsval"

definition get_prop :: "CsvTransaction \<Rightarrow> string \<Rightarrow> jsval" where
  "get_prop t k = (case t k of None \<Rightarrow> Undefined | Some v \<Rightarrow> v)"

text \<open>
  \<open>t[k] = v\<close>. Assigning a string or \<open>undefined\<close> to \<open>__proto__\<close> leaves an object
  as it is.
\<close>

definition set_prop :: "CsvTransaction \<Rightarrow> string \<Rightarrow> jsval \<Rightarrow> CsvTransaction" where
  "set_prop t k v = (if k = ''__proto__'' then t else t(k \<mapsto> v))"

record columnMapping =
  dateColumn :: string
  amountColumn :: string
  descriptionColumn :: string
  categoryColumn :: "string option"
  typeColumn :: "string option"
  dateFormat :: string
  defaultCategory :: "string option"
  defaultType :: "string option"

fun indexOf_from :: "string list \<Rightarrow> string \<Rightarrow> int \<Rightarrow> int" where
  "indexOf_from [] x i = - 1"
| "indexOf_from (y # ys) x i = (if y = x then i else indexOf_from ys x (i + 1))"

definition indexOf :: "string list \<Rightarrow> string \<Rightarrow> int" where
  "indexOf xs x = indexOf_from xs x 0"

text \<open>\<open>row[idx]\<close>\<close>

definition cell :: "string list \<Rightarrow> int \<Rightarrow> jsval" where
  "cell row idx = (if 0 \<le> idx \<and> idx < int (length row) then Str (row ! nat idx) else Undefined)"

text \<open>The loop over the headers that adds the columns no field has consumed.\<close>

fun add_columns ::
  "string list \<Rightarrow> int \<Rightarrow> string list \<Rightarrow> int list \<Rightarrow> CsvTransaction \<Rightarrow> CsvTransaction" where
  "add_columns [] idx row consumed transaction = transaction"
| "add_columns (header # rest) idx row consumed transaction =
     add_columns rest (idx + 1) row consumed
       (if idx \<notin> set consumed then set_prop transaction header (cell row idx) else transaction)"

definition map_row ::
  "string list \<Rightarrow> columnMapping \<Rightarrow> int \<Rightarrow> int \<Rightarrow> int \<Rightarrow> int \<Rightarrow> int \<Rightarrow> string list \<Rightarrow> CsvTransaction" where
  "map_row headers mapping dateIdx amountIdx descriptionIdx categoryIdx typeIdx row =
     (let transaction =
            [''date'' \<mapsto> (if 0 \<le> dateIdx then cell row dateIdx else Str []),
             ''amount'' \<mapsto> (if 0 \<le> amountIdx then cell row amountIdx else Str []),
             ''description'' \<mapsto> (if 0 \<le> descriptionIdx then cell row descriptionIdx else Str []),
             ''category'' \<mapsto> (if 0 \<le> categoryIdx then cell row categoryIdx
                                else Str (or_else (defaultCategory mapping) ''Uncategorized'')),
             ''type'' \<mapsto> (if 0 \<le> typeIdx then cell row typeIdx
                            else Str (or_else (defaultType mapping) ''expense''))]
      in add_columns headers 0 row [dateIdx, amountIdx, descriptionIdx, categoryIdx, typeIdx]
           transaction)"

definition mapCsvToTransactions ::
  "string list \<Rightarrow> string list list \<Rightarrow> columnMapping \<Rightarrow> CsvTransaction list" where
  "mapCsvToTransactions headers data mapping =
     (let dateIdx = indexOf headers (dateColumn mapping);
          amountIdx = indexOf headers (amountColumn mapping);
          descriptionIdx = indexOf headers (descriptionColumn mapping);
          categoryIdx = (if truthy (categoryColumn mapping)
                         then indexOf headers (or_else (categoryColumn mapping) []) else - 1);
          typeIdx = (if truthy (typeColumn mapping)
                     then indexOf headers (or_else (typeColumn mapping) []) else - 1)
      in map (map_row headers mapping dateIdx amountIdx descriptionIdx categoryIdx typeIdx) data)"

subsection \<open>Validator\<close>

function string_of_nat :: "nat \<Rightarrow> string" where
  "string_of_nat n =
     (if n < 10 then [''0123456789'' ! n]
      else string_of_nat (n div 10) @ [''0123456789'' ! (n mod 10)])"
  by pat_completeness auto
termination
  by (relation "measure (\<lambda>n. n)") auto

declare string_of_nat.simps [simp del]

definition date_issue :: "nat \<Rightarrow> string \<Rightarrow> string" where
  "date_issue index d =
     ''Row '' @ string_of_nat (index + 1) @ '': Invalid date format '' @ [CHR 0x22] @ d @ [CHR 0x22]"

definition amount_issue :: "nat \<Rightarrow> string \<Rightarrow> string" where
  "amount_issue index a =
     ''Row '' @ string_of_nat (index + 1) @ '': Invalid amount '' @ [CHR 0x22] @ a @ [CHR 0x22]"

definition description_issue :: "nat \<Rightarrow> string" where
  "description_issue index = ''Row '' @ string_of_nat (index + 1) @ '': Missing description''"

text \<open>
  The loop over the transactions, with the index and the errors pushed so far. Calling
  \<open>replace\<close> or \<open>trim\<close> on a property that is \<open>undefined\<close> throws a \<open>TypeError\<close>,
  which ends the loop.
\<close>

fun validate_rows ::
  "string \<Rightarrow> CsvTransaction list \<Rightarrow> nat \<Rightarrow> string list \<Rightarrow> error + string list" where
  "validate_rows fmt [] index errors = Inr errors"
| "validate_rows fmt (transaction # rest) index errors =
     (case get_prop transaction ''date'' of
        Undefined \<Rightarrow> Inl TypeError
      | Str d \<Rightarrow>
         (let errors1 = (if parseDate d fmt = None
                         then errors @ [date_issue index d] else errors)
          in case get_prop transaction ''amount'' of
               Undefined \<Rightarrow> Inl TypeError
             | Str a \<Rightarrow>
                (let amount = parse_amount a;
                     errors2 = (if isNaN amount
                                then errors1 @ [amount_issue index a] else errors1)
                 in case get_prop transaction ''description'' of
                      Undefined \<Rightarrow> Inl TypeError
                    | Str desc \<Rightarrow>
                       (let errors3 = (if trim desc = []
                                       then errors2 @ [description_issue index] else errors2)
                        in validate_rows fmt rest (index + 1) errors3))))"

definition validateTransactions :: "CsvTransaction list \<Rightarrow> string \<Rightarrow> error + string list" where
  "validateTransactions transactions fmt = validate_rows fmt transactions 0 []"

subsection \<open>Template catalog\<close>

record templateHeaders =
  date_header :: string
  description_header :: string
  amount_header :: string
  category_header :: "string option"
  type_header :: "string option"

record BankTemplate =
  template_id :: string
  template_name :: string
  template_headers :: templateHeaders
  template_dateFormat :: string

definition bankTemplates :: "BankTemplate list" where
  "bankTemplates =
     [\<lparr>template_id = ''generic'', template_name = ''Generic Format'',
       template_headers = \<lparr>date_header = ''date'', description_header = ''description'',
         amount_header = ''amount'', category_header = Some ''category'',
         type_header = Some ''type''\<rparr>,
       template_dateFormat = ''YYYY-MM-DD''\<rparr>,
      \<lparr>template_id = ''chase'', template_name = ''Chase Bank'',
       template_headers = \<lparr>date_header = ''transaction_date'',
         description_header = ''description'', amount_header = ''amount'',
         category_header = None, type_header = Some ''transaction_type''\<rparr>,
       template_dateFormat = ''MM/DD/YYYY''\<rparr>,
      \<lparr>template_id = ''bankofamerica'', template_name = ''Bank of America'',
       template_headers = \<lparr>date_header = ''date'', description_header = ''description'',
         amount_header = ''amount'', category_header = None, type_header = None\<rparr>,
       template_dateFormat = ''MM/DD/YYYY''\<rparr>,
      \<lparr>template_id = ''wells_fargo'', template_name = ''Wells Fargo'',
       template_headers = \<lparr>date_header = ''date'', description_header = ''description'',
         amount_header = ''amount'', category_header = None, type_header = None\<rparr>,
       template_dateFormat = ''MM/DD/YYYY''\<rparr>,
      \<lparr>template_id = ''hsbc'', template_name = ''HSBC'',
       template_headers = \<lparr>date_header = ''date'', description_header = ''description'',
         amount_header = ''amount'', category_header = None, type_header = None\<rparr>,
       template_dateFormat = ''DD/MM/YYYY''\<rparr>]"

text \<open>The mapping that standard mode builds from a template and the headers of the file.\<close>

definition template_mapping :: "BankTemplate \<Rightarrow> string list \<Rightarrow> columnMapping" where
  "template_mapping template headers =
     \<lparr>dateColumn = findBestMatchingHeader headers (date_header (template_headers template)),
      amountColumn = findBestMatchingHeader headers (amount_header (template_headers template)),
      descriptionColumn =
        findBestMatchingHeader headers (description_header (template_headers template)),
      categoryColumn =
        (case category_header (template_headers template) of
           None \<Rightarrow> None
         | Some c \<Rightarrow> if c \<noteq> [] then Some (findBestMatchingHeader headers c) else None),
      typeColumn =
        (case type_header (template_headers template) of
           None \<Rightarrow> None
         | Some c \<Rightarrow> if c \<noteq> [] then Some (findBestMatchingHeader headers c) else None),
      dateFormat = template_dateFormat template,
      defaultCategory = Some ''Uncategorized'',
      defaultType = Some ''expense''\<rparr>"

subsection \<open>Commit\<close>

record DbTransaction =
  db_id :: string
  db_transaction_date :: string
  db_description :: jsval
  db_amount :: jsnum
  db_category :: jsval
  db_type :: jsval
  db_user_id :: string
  db_created_at :: string

text \<open>
  What the page takes from its surroundings at commit: the signed-in user, if any; the
  identifier generated for the row at an index; the current time as an ISO string; what
  the engine makes of \<open>new Date(s).toISOString()\<close> for a string \<open>s\<close> outside the two
  ISO forms written out below (\<open>None\<close> when the Date is invalid and \<open>toISOString\<close>
  throws a \<open>RangeError\<close>); and the error of the insert, if any.
\<close>

record host =
  auth_user :: "string option"
  uuidv4 :: "nat \<Rightarrow> string"
  now_iso :: string
  legacy_date :: "string \<Rightarrow> string option"
  insert_error :: "DbTransaction list \<Rightarrow> string option"

text \<open>
  The two forms of the language's date-time string format that are written out: the
  date alone, \<open>YYYY-MM-DD\<close>, and the date with hours and minutes in UTC,
  \<open>YYYY-MM-DDTHH:mmZ\<close>, both for a day that exists; both are times in UTC.
\<close>

definition iso_date :: "string \<Rightarrow> bool" where
  "iso_date s =
     (length s = 10 \<and> list_all is_digit (take 4 s) \<and> s ! 4 = CHR ''-'' \<and>
      list_all is_digit (take 2 (drop 5 s)) \<and> s ! 7 = CHR ''-'' \<and>
      list_all is_digit (drop 8 s) \<and>
      (let y = int (nat_of_digits (take 4 s));
           m = int (nat_of_digits (take 2 (drop 5 s)));
           d = int (nat_of_digits (drop 8 s))
       in 1 \<le> m \<and> m \<le> 12 \<and> 1 \<le> d \<and> d \<le> days_in_month y (m - 1)))"

definition iso_utc_time :: "string \<Rightarrow> bool" where
  "iso_utc_time s =
     (length s = 7 \<and> s ! 0 = CHR ''T'' \<and> list_all is_digit (take 2 (drop 1 s)) \<and>
      s ! 3 = CHR '':'' \<and> list_all is_digit (take 2 (drop 4 s)) \<and> s ! 6 = CHR ''Z'' \<and>
      nat_of_digits (take 2 (drop 1 s)) \<le> 23 \<and> nat_of_digits (take 2 (drop 4 s)) \<le> 59)"

text \<open>\<open>new Date(v).toISOString()\<close>; the Date of \<open>undefined\<close> is invalid.\<close>

definition date_toISOString :: "host \<Rightarrow> jsval \<Rightarrow> error + string" where
  "date_toISOString h v =
     (case v of
        Undefined \<Rightarrow> Inl RangeError
      | Str s \<Rightarrow>
          if iso_date s then Inr (s @ ''T00:00:00.000Z'')
          else if iso_date (take 10 s) \<and> iso_utc_time (drop 10 s)
          then Inr (take 16 s @ '':00.000Z'')
          else (case legacy_date h s of None \<Rightarrow> Inl RangeError | Some isoString \<Rightarrow> Inr isoString))"

text \<open>
  The selection is an object from row indices to booleans, kept as an association list
  in which the first entry of an index counts.
\<close>

type_synonym selection = "(nat \<times> bool) list"

definition selected :: "selection \<Rightarrow> nat \<Rightarrow> bool" where
  "selected sel idx = (case map_of sel idx of None \<Rightarrow> False | Some b \<Rightarrow> b)"

text \<open>
  The callback of \<open>parsedData.map\<close>. \<open>to_db\<close> is its body after the test of the
  selection: the row for the database, or an error when the amount is \<open>undefined\<close> or
  the Date is invalid. \<open>convert_row\<close> is the whole callback: \<open>None\<close>, for \<open>null\<close>,
  when the row is not selected and the selection is not empty.
\<close>

definition to_db :: "host \<Rightarrow> string \<Rightarrow> CsvTransaction \<Rightarrow> nat \<Rightarrow> error + DbTransaction" where
  "to_db h uid t idx =
     (case get_prop t ''amount'' of
        Undefined \<Rightarrow> Inl TypeError
      | Str a \<Rightarrow>
         (let amount = parse_amount a
          in case date_toISOString h (get_prop t ''date'') of
               Inl e \<Rightarrow> Inl e
             | Inr isoString \<Rightarrow>
                 Inr \<lparr>db_id = uuidv4 h idx,
                      db_transaction_date = isoString,
                      db_description = get_prop t ''description'',
                      db_amount = (if get_prop t ''type'' = Str ''expense''
                                   then negate (Math_abs amount)
                                   else Math_abs amount),
                      db_category = get_prop t ''category'',
                      db_type = get_prop t ''type'',
                      db_user_id = uid,
                      db_created_at = now_iso h\<rparr>))"

definition convert_row ::
  "host \<Rightarrow> string \<Rightarrow> selection \<Rightarrow> CsvTransaction \<Rightarrow> nat \<Rightarrow> error + DbTransaction option" where
  "convert_row h uid sel t idx =
     (if \<not> selected sel idx \<and> sel \<noteq> [] then Inr None
      else (case to_db h uid t idx of
              Inl e \<Rightarrow> Inl e
            | Inr d \<Rightarrow> Inr (Some d)))"

fun convert_rows ::
  "host \<Rightarrow> string \<Rightarrow> selection \<Rightarrow> CsvTransaction list \<Rightarrow> nat \<Rightarrow> error + DbTransaction option list" where
  "convert_rows h uid sel [] idx = Inr []"
| "convert_rows h uid sel (t # ts) idx =
     (case convert_row h uid sel t idx of
        Inl e \<Rightarrow> Inl e
      | Inr r \<Rightarrow>
         (case convert_rows h uid sel ts (idx + 1) of
            Inl e \<Rightarrow> Inl e
          | Inr rs \<Rightarrow> Inr (r # rs)))"

text \<open>\<open>.filter(Boolean)\<close>: the rows that are not \<open>null\<close>.\<close>

definition filter_Boolean :: "DbTransaction option list \<Rightarrow> DbTransaction list" where
  "filter_Boolean rs = concat (map (\<lambda>r. case r of None \<Rightarrow> [] | Some d \<Rightarrow> [d]) rs)"

subsection \<open>Import session\<close>

datatype status = Idle | Uploading | Parsing | Mapping | Preview | Inserting | Success | Failed

datatype mode = Standard | Advanced

record csvFile =
  file_type :: string
  file_name :: string
  file_text :: "error + string"

record session =
  uploadMode :: mode
  chosen_file :: "csvFile option"
  uploadStatus :: status
  progress :: nat
  errorMessage :: string
  csvHeaders :: "string list"
  csvData :: "string list list"
  parsedData :: "CsvTransaction list"
  selectedTemplate :: string
  validationErrors :: "string list"
  selectedTransactions :: selection

definition initial_session :: session where
  "initial_session =
     \<lparr>uploadMode = Standard, chosen_file = None, uploadStatus = Idle, progress = 0,
      errorMessage = [], csvHeaders = [], csvData = [], parsedData = [],
      selectedTemplate = ''generic'', validationErrors = [], selectedTransactions = []\<rparr>"

text \<open>The text of an error, as \<open>error.message\<close> gives it.\<close>

definition message :: "error \<Rightarrow> string" where
  "message e =
     (case e of
        Error m \<Rightarrow> m
      | TypeError \<Rightarrow> ''Cannot read properties of undefined''
      | RangeError \<Rightarrow> ''Invalid time value'')"

definition handleFile :: "csvFile \<Rightarrow> session \<Rightarrow> session" where
  "handleFile f s =
     (if file_type f \<noteq> ''text/csv'' \<and> \<not> suffix ''.csv'' (file_name f) then s
      else s\<lparr>chosen_file := Some f, uploadStatus := Idle, errorMessage := [], parsedData := [],
             csvHeaders := [], csvData := [], selectedTransactions := []\<rparr>)"

text \<open>The \<open>catch\<close> of \<open>processFile\<close>.\<close>

definition process_failed :: "error \<Rightarrow> session \<Rightarrow> session" where
  "process_failed e s = s\<lparr>errorMessage := message e, uploadStatus := Failed, progress := 0\<rparr>"

definition processFile :: "session \<Rightarrow> session" where
  "processFile s =
     (case chosen_file s of
        None \<Rightarrow> s
      | Some f \<Rightarrow>
         (let s1 = s\<lparr>uploadStatus := Parsing, progress := 10\<rparr>
          in case file_text f of
               Inl e \<Rightarrow> process_failed e s1
             | Inr text \<Rightarrow>
                (let s2 = s1\<lparr>progress := 30\<rparr>
                 in case parseRawCSV text of
                      Inl e \<Rightarrow> process_failed e s2
                    | Inr (headers, data) \<Rightarrow>
                       (let s3 = s2\<lparr>csvHeaders := headers, csvData := data, progress := 50\<rparr>
                        in if uploadMode s3 = Standard
                           then (case find (\<lambda>t. template_id t = selectedTemplate s3) bankTemplates of
                                   None \<Rightarrow> process_failed (Error ''Selected template not found'') s3
                                 | Some template \<Rightarrow>
                                    (let transactions =
                                           mapCsvToTransactions headers data
                                             (template_mapping template headers)
                                     in case validateTransactions transactions
                                               (template_dateFormat template) of
                                          Inl e \<Rightarrow> process_failed e s3
                                        | Inr errors \<Rightarrow>
                                           (let s4 = s3\<lparr>validationErrors := errors\<rparr>
                                            in if length errors = 0
                                               then s4\<lparr>parsedData := transactions,
                                                       uploadStatus := Preview, progress := 100\<rparr>
                                               else s4\<lparr>uploadStatus := Failed,
                                                       progress := 100\<rparr>)))
                           else s3\<lparr>uploadStatus := Mapping, progress := 100\<rparr>))))"

definition onSubmitMapping :: "columnMapping \<Rightarrow> session \<Rightarrow> session" where
  "onSubmitMapping values s =
     (let transactions = mapCsvToTransactions (csvHeaders s) (csvData s) values
      in case validateTransactions transactions (dateFormat values) of
           Inl e \<Rightarrow> s\<lparr>errorMessage := message e, uploadStatus := Failed\<rparr>
         | Inr errors \<Rightarrow>
            (let s1 = s\<lparr>validationErrors := errors\<rparr>
             in if length errors = 0
                then s1\<lparr>parsedData := transactions, uploadStatus := Preview\<rparr>
                else s1\<lparr>uploadStatus := Failed\<rparr>))"

text \<open>
  \<open>importTransactions\<close> gives the session it leaves and the batch handed to the insert,
  if the insert was reached.
\<close>

definition importTransactions :: "host \<Rightarrow> session \<Rightarrow> session \<times> DbTransaction list option" where
  "importTransactions h s =
     (if length (parsedData s) = 0 then (s, None)
      else (let s1 = s\<lparr>uploadStatus := Inserting, progress := 0\<rparr>
            in case auth_user h of
                 None \<Rightarrow> (s1\<lparr>errorMessage := ''User not authenticated'', uploadStatus := Failed\<rparr>,
                           None)
               | Some uid \<Rightarrow>
                  (case convert_rows h uid (selectedTransactions s) (parsedData s) 0 of
                     Inl e \<Rightarrow> (s1\<lparr>errorMessage := message e, uploadStatus := Failed\<rparr>, None)
                   | Inr rs \<Rightarrow>
                      (let transactions = filter_Boolean rs
                       in case insert_error h transactions of
                            Some m \<Rightarrow> (s1\<lparr>errorMessage := m, uploadStatus := Failed\<rparr>,
                                       Some transactions)
                          | None \<Rightarrow> (s1\<lparr>uploadStatus := Success\<rparr>, Some transactions)))))"

text \<open>The controls of the preview and of the page.\<close>

definition clear_selection :: "session \<Rightarrow> session" where
  "clear_selection s = s\<lparr>selectedTransactions := []\<rparr>"

definition select_all :: "session \<Rightarrow> session" where
  "select_all s = s\<lparr>selectedTransactions := map (\<lambda>idx. (idx, True)) [0..<length (parsedData s)]\<rparr>"

definition toggle_row :: "nat \<Rightarrow> bool \<Rightarrow> session \<Rightarrow> session" where
  "toggle_row index checked s =
     s\<lparr>selectedTransactions :=
         (index, checked) # filter (\<lambda>(k, b). k \<noteq> index) (selectedTransactions s)\<rparr>"

definition cancel_preview :: "session \<Rightarrow> session" where
  "cancel_preview s = s\<lparr>uploadStatus := Idle\<rparr>"

text \<open>The sessions the page can be in: from the initial one, by any of its handlers.\<close>

inductive reachable :: "session \<Rightarrow> bool" where
  reach_initial: "reachable initial_session"
| reach_handleFile: "reachable s \<Longrightarrow> reachable (handleFile f s)"
| reach_mode: "reachable s \<Longrightarrow> reachable (s\<lparr>uploadMode := m\<rparr>)"
| reach_template: "reachable s \<Longrightarrow> reachable (s\<lparr>selectedTemplate := t\<rparr>)"
| reach_processFile: "reachable s \<Longrightarrow> reachable (processFile s)"
| reach_onSubmitMapping: "reachable s \<Longrightarrow> reachable (onSubmitMapping values s)"
| reach_clear: "reachable s \<Longrightarrow> reachable (clear_selection s)"
| reach_select_all: "reachable s \<Longrightarrow> reachable (select_all s)"
| reach_toggle: "reachable s \<Longrightarrow> reachable (toggle_row index checked s)"
| reach_cancel: "reachable s \<Longrightarrow> reachable (cancel_preview s)"
| reach_import: "reachable s \<Longrightarrow> reachable (fst (importTransactions h s))"

subsection \<open>Notions used to state the properties\<close>

text \<open>
  The pieces of a date text: what is left of it when every character but digits and the
  separators \<open>/\<close>, \<open>-\<close>, \<open>.\<close> is removed, split at the separators.
\<close>

definition date_parts :: "string \<Rightarrow> string list" where
  "date_parts s = split_on is_date_separator (filter is_date_char s)"

text \<open>
  The Date built from a year, a 0-indexed month and a day echoes them: it is valid and
  reads back as that year, month and day.
\<close>

definition echoes :: "int \<Rightarrow> int \<Rightarrow> int \<Rightarrow> bool" where
  "echoes y m d =
     (new_Date (Some y) (Some m) (Some d) = Some \<lparr>fullYear = y, month0 = m, dayOfMonth = d\<rparr>)"

text \<open>
  The date accepted for the texts of a year, a month counted from 1 and a day: all
  three are numeric and the date built from them echoes them.
\<close>

definition accepted_date :: "string \<Rightarrow> string \<Rightarrow> string \<Rightarrow> jsdate option" where
  "accepted_date yearText monthText dayText =
     (case (parseInt yearText, parseInt monthText, parseInt dayText) of
        (Some y, Some m, Some d) \<Rightarrow>
          if echoes y (m - 1) d then Some \<lparr>fullYear = y, month0 = m - 1, dayOfMonth = d\<rparr>
          else None
      | _ \<Rightarrow> None)"

text \<open>
  A text is blank when it holds nothing but white space. The lines of a text are its
  pieces between line feeds; those that count are the ones that are not blank.
\<close>

definition blank :: "string \<Rightarrow> bool" where
  "blank s = list_all is_whitespace s"

definition content_lines :: "string \<Rightarrow> string list" where
  "content_lines text = filter (\<lambda>line. \<not> blank line) (split_on (\<lambda>c. c = CHR 0x0A) text)"

text \<open>
  What is left of an amount text when every character but the digits, the point and the
  minus sign is removed; and a text that starts with a number: after one minus sign, if
  there is one, it goes on with a digit, or with a point and a digit.
\<close>

definition amount_text :: "string \<Rightarrow> string" where
  "amount_text a = filter (\<lambda>c. c \<in> set ''0123456789.-'') a"

definition starts_number :: "string \<Rightarrow> bool" where
  "starts_number s =
     (case (if take 1 s = ''-'' then drop 1 s else s) of
        [] \<Rightarrow> False
      | c # cs \<Rightarrow>
          c \<in> set ''0123456789'' \<or>
          c = CHR ''.'' \<and> (case cs of [] \<Rightarrow> False | d # ds \<Rightarrow> d \<in> set ''0123456789''))"

text \<open>
  The text of a property, a candidate whose three checked fields are strings, the three
  checks of the validator (the date parses under the layout, the amount text stripped
  starts with a number, the description is not blank), and the issues of one row: one for
  each check it violates, in the order date, amount, description.
\<close>

definition text_of :: "jsval \<Rightarrow> string" where
  "text_of v = (case v of Undefined \<Rightarrow> [] | Str s \<Rightarrow> s)"

definition well_typed :: "CsvTransaction \<Rightarrow> bool" where
  "well_typed t =
     (get_prop t ''date'' \<noteq> Undefined \<and> get_prop t ''amount'' \<noteq> Undefined \<and>
      get_prop t ''description'' \<noteq> Undefined)"

definition date_ok :: "string \<Rightarrow> CsvTransaction \<Rightarrow> bool" where
  "date_ok fmt t = (parseDate (text_of (get_prop t ''date'')) fmt \<noteq> None)"

definition amount_ok :: "CsvTransaction \<Rightarrow> bool" where
  "amount_ok t = starts_number (amount_text (text_of (get_prop t ''amount'')))"

definition description_ok :: "CsvTransaction \<Rightarrow> bool" where
  "description_ok t = (\<not> blank (text_of (get_prop t ''description'')))"

definition row_issues :: "string \<Rightarrow> nat \<Rightarrow> CsvTransaction \<Rightarrow> string list" where
  "row_issues fmt index t =
     (if date_ok fmt t then [] else [date_issue index (text_of (get_prop t ''date''))]) @
     (if amount_ok t then [] else [amount_issue index (text_of (get_prop t ''amount''))]) @
     (if description_ok t then [] else [description_issue index])"


text \<open>
  The candidates of the two-row example: the generic template applied to the headers
  \<open>date\<close>, \<open>description\<close>, \<open>amount\<close> and two rows, the second with no description.
\<close>

definition example_candidates :: "CsvTransaction list" where
  "example_candidates =
     mapCsvToTransactions [''date'', ''description'', ''amount'']
       [[''2024-01-05'', ''Coffee'', ''-50''], [''2024-01-06'', [], ''20'']]
       (template_mapping (hd bankTemplates) [''date'', ''description'', ''amount''])"

text \<open>
  The index a column that may be left unmapped resolves to, the indices that the five
  fields consume, the columns that no field consumes, and a column that is mapped and
  present among the headers.
\<close>

definition optional_index :: "string list \<Rightarrow> string option \<Rightarrow> int" where
  "optional_index headers col =
     (if truthy col then indexOf headers (or_else col []) else - 1)"

definition consumed_indices :: "string list \<Rightarrow> columnMapping \<Rightarrow> int list" where
  "consumed_indices headers mapping =
     [indexOf headers (dateColumn mapping), indexOf headers (amountColumn mapping),
      indexOf headers (descriptionColumn mapping),
      optional_index headers (categoryColumn mapping),
      optional_index headers (typeColumn mapping)]"

definition extra_column :: "string list \<Rightarrow> columnMapping \<Rightarrow> nat \<Rightarrow> bool" where
  "extra_column headers mapping i =
     (i < length headers \<and> int i \<notin> set (consumed_indices headers mapping))"

definition mapped_column :: "string list \<Rightarrow> string option \<Rightarrow> bool" where
  "mapped_column headers col =
     (case col of None \<Rightarrow> False | Some c \<Rightarrow> c \<noteq> [] \<and> c \<in> set headers)"

text \<open>
  A row is chosen at commit when the selection is empty or holds a true entry for its
  index.
\<close>

definition chosen :: "selection \<Rightarrow> nat \<Rightarrow> bool" where
  "chosen sel idx = (sel = [] \<or> selected sel idx)"

text \<open>
  Surroundings and a session for the examples: a signed-in user, an engine that takes no
  date text beyond the two ISO forms, an insert that succeeds; and a preview of three
  candidates, an expense, an income and a row whose type is \<open>Credit\<close>.
\<close>

definition example_host :: host where
  "example_host =
     \<lparr>auth_user = Some ''user-1'',
      uuidv4 = (\<lambda>idx. ''id-'' @ string_of_nat idx),
      now_iso = ''2025-01-01T00:00:00.000Z'',
      legacy_date = (\<lambda>s. None),
      insert_error = (\<lambda>batch. None)\<rparr>"

definition example_expense :: CsvTransaction where
  "example_expense =
     [''date'' \<mapsto> Str ''2024-01-05'', ''amount'' \<mapsto> Str ''50'',
      ''description'' \<mapsto> Str ''Coffee'', ''category'' \<mapsto> Str ''Uncategorized'',
      ''type'' \<mapsto> Str ''expense'']"

definition example_income :: CsvTransaction where
  "example_income =
     [''date'' \<mapsto> Str ''2024-01-06'', ''amount'' \<mapsto> Str ''-2000'',
      ''description'' \<mapsto> Str ''Salary'', ''category'' \<mapsto> Str ''Uncategorized'',
      ''type'' \<mapsto> Str ''income'']"

definition example_credit :: CsvTransaction where
  "example_credit =
     [''date'' \<mapsto> Str ''2024-01-07'', ''amount'' \<mapsto> Str ''-12.50'',
      ''description'' \<mapsto> Str ''Refund'', ''category'' \<mapsto> Str ''Uncategorized'',
      ''type'' \<mapsto> Str ''Credit'']"

definition example_preview :: session where
  "example_preview =
     initial_session\<lparr>parsedData := [example_expense, example_income, example_credit],
       uploadStatus := Preview\<rparr>"

text \<open>
  What holds of every session the page can be in: the candidates kept for the preview
  passed validation under some layout, and the rows kept from the file are as long as its
  headers.
\<close>

definition session_invariant :: "session \<Rightarrow> bool" where
  "session_invariant s =
     ((\<exists>fmt. validateTransactions (parsedData s) fmt = Inr []) \<and>
      (\<forall>row\<in>set (csvData s). length row = length (csvHeaders s)))"

text \<open>
  Two files for the examples of the gate: one whose two rows are valid, and one of three
  rows whose second amount is \<open>abc\<close>.
\<close>

definition example_file_good :: csvFile where
  "example_file_good =
     \<lparr>file_type = ''text/csv'', file_name = ''statement.csv'',
      file_text = Inr ''date,description,amount\<newline>2024-01-05,Coffee,-50\<newline>2024-01-06,Tea,20''\<rparr>"

definition example_file_bad :: csvFile where
  "example_file_bad =
     \<lparr>file_type = ''text/csv'', file_name = ''statement.csv'',
      file_text = Inr ''date,description,amount\<newline>2024-01-05,Coffee,-50\<newline>2024-01-06,Tea,abc\<newline>2024-01-07,Bus,3''\<rparr>"

text \<open>
  A candidate whose date text the validator reads, under the layout day, month, year,
  as 1 January 10000, and the engine as a time of 1 January of the year 1.
\<close>

definition example_dmy_candidate :: CsvTransaction where
  "example_dmy_candidate =
     [''date'' \<mapsto> Str ''0001-01-01T00:00Z'', ''amount'' \<mapsto> Str ''5'',
      ''description'' \<mapsto> Str ''Coffee'', ''category'' \<mapsto> Str ''Uncategorized'',
      ''type'' \<mapsto> Str ''expense'']"

text \<open>
  The targets that the page passes to the header matcher: the labels of a template, the
  optional ones when they are present and not empty, and those of the whole catalog. And
  two headers for the examples, one with a no-break space and one in capital letters
  beyond \<open>Z\<close>, with the target that the latter matches.
\<close>

definition template_labels :: "BankTemplate \<Rightarrow> string list" where
  "template_labels template =
     [date_header (template_headers template), amount_header (template_headers template),
      description_header (template_headers template)] @
     (case category_header (template_headers template) of
        None \<Rightarrow> []
      | Some c \<Rightarrow> if c \<noteq> [] then [c] else []) @
     (case type_header (template_headers template) of
        None \<Rightarrow> []
      | Some c \<Rightarrow> if c \<noteq> [] then [c] else [])"

definition catalog_labels :: "string list" where
  "catalog_labels = concat (map template_labels bankTemplates)"

definition example_spaced_header :: string where
  "example_spaced_header = ''Transaction'' @ [CHR 0xA0] @ ''Date''"

definition example_accented_header :: string where
  "example_accented_header = ''CAF'' @ [CHR 0xC9]"

definition example_accented_target :: string where
  "example_accented_target = ''caf'' @ [CHR 0xE9]"

text \<open>
  Texts for the examples of the tokenizer: a header followed by blank lines only, one of
  them a no-break space; a file of one column with a blank line between its two rows; and
  a file that starts with blank lines, has a row of one field under two headers, and a
  row with a quoted comma, padded fields and a carriage return at its end.
\<close>

definition example_blank_lines :: string where
  "example_blank_lines = ''h\<newline>'' @ [CHR 0xA0] @ ''\<newline> '' @ [CHR 0x09, CHR 0x0D] @ ''\<newline>''"

definition example_one_column :: string where
  "example_one_column = ''h\<newline>1\<newline>\<newline>2''"

definition example_quoted_line :: string where
  "example_quoted_line = [CHR 0x22] @ ''x, y'' @ [CHR 0x22] @ '' , z '' @ [CHR 0x0D]"

definition example_quoted :: string where
  "example_quoted = ''\<newline> \<newline>a,b\<newline>1,2\<newline>3\<newline>'' @ example_quoted_line @ ''\<newline>''"

text \<open>
  Two candidates for the examples of the validator: one whose amount is written with a
  currency sign and a thousands separator, and one that fails the three checks, its date
  being 30 February, its amount \<open>abc\<close> and its description white space only.
\<close>

definition example_priced_row :: CsvTransaction where
  "example_priced_row =
     [''date'' \<mapsto> Str ''2024-01-05'', ''amount'' \<mapsto> Str ''$1,234.50'',
      ''description'' \<mapsto> Str ''Coffee'', ''category'' \<mapsto> Str ''Uncategorized'',
      ''type'' \<mapsto> Str ''expense'']"

definition example_broken_row :: CsvTransaction where
  "example_broken_row =
     [''date'' \<mapsto> Str ''2024-02-30'', ''amount'' \<mapsto> Str ''abc'',
      ''description'' \<mapsto> Str ('' '' @ [CHR 0xA0, CHR 0x09]), ''category'' \<mapsto> Str ''Uncategorized'',
      ''type'' \<mapsto> Str ''expense'']"



text \<open>
  A file for the examples of the gate whose only row has a no-break space for its
  description.
\<close>

definition example_blank_text :: string where
  "example_blank_text = ''date,description,amount\<newline>2024-01-05,'' @ [CHR 0xA0] @ '',-50''"

definition example_file_blank :: csvFile where
  "example_file_blank =
     \<lparr>file_type = ''text/csv'', file_name = ''statement.csv'',
      file_text = Inr example_blank_text\<rparr>"

section \<open>Properties\<close>

subsection \<open>Blank texts and amount texts\<close>

lemma trim_empty_iff: "trim s = [] \<longleftrightarrow> blank s"
proof -
  let ?rest = "dropWhile is_whitespace s"
  have "trim s = [] \<longleftrightarrow> (\<forall>c\<in>set ?rest. is_whitespace c)"
    by (simp add: trim_def)
  also have "\<dots> \<longleftrightarrow> (\<forall>c\<in>set s. is_whitespace c)"
  proof
    assume a: "\<forall>c\<in>set ?rest. is_whitespace c"
    have "?rest = []"
    proof (rule ccontr)
      assume n: "?rest \<noteq> []"
      then have "\<not> is_whitespace (hd ?rest)"
        by (rule hd_dropWhile)
      moreover have "hd ?rest \<in> set ?rest"
        using n by (rule hd_in_set)
      ultimately show False
        using a by blast
    qed
    then show "\<forall>c\<in>set s. is_whitespace c"
      by simp
  next
    assume "\<forall>c\<in>set s. is_whitespace c"
    then show "\<forall>c\<in>set ?rest. is_whitespace c"
      by (auto dest: set_dropWhileD)
  qed
  finally show ?thesis
    by (simp add: blank_def list_all_iff)
qed

lemma nonblank_lines_content: "nonblank_lines text = content_lines text"
  by (simp add: nonblank_lines_def content_lines_def trim_empty_iff)

lemma amount_text_filter: "filter is_amount_char a = amount_text a"
  unfolding amount_text_def
  by (rule filter_cong) (auto simp: is_amount_char_def is_digit_def)

lemma parseFloat_NaN_iff: "parseFloat s = NaN \<longleftrightarrow> \<not> starts_number s"
proof (cases s)
  case Nil
  then show ?thesis by (simp add: parseFloat_def starts_number_def)
next
  case (Cons c cs)
  show ?thesis
  proof (cases "c = CHR ''-''")
    case True
    then show ?thesis
      unfolding Cons
      by (cases cs; simp add: parseFloat_def starts_number_def Let_def is_digit_def
          split: list.splits)
  next
    case False
    then show ?thesis
      unfolding Cons
      by (simp add: parseFloat_def starts_number_def Let_def is_digit_def
          split: list.splits)
  qed
qed

subsection \<open>Header matcher\<close>

lemma findBestMatchingHeader_exact:
  assumes "i < length headers" "normalize (headers ! i) = normalize target"
    "\<forall>j<i. normalize (headers ! j) \<noteq> normalize target" "headers ! i \<noteq> []"
  shows "findBestMatchingHeader headers target = headers ! i"
proof -
  have "find (exact_match (normalize target)) headers = Some (headers ! i)"
    unfolding find_Some_iff exact_match_def using assms by blast
  then show ?thesis
    using assms(4) by (simp add: findBestMatchingHeader_def truthy_def)
qed

lemma findBestMatchingHeader_partial:
  assumes "\<forall>h\<in>set headers. normalize h \<noteq> normalize target"
    "i < length headers" "partial_match (normalize target) (headers ! i)"
    "\<forall>j<i. \<not> partial_match (normalize target) (headers ! j)"
  shows "findBestMatchingHeader headers target = headers ! i"
proof -
  have "find (exact_match (normalize target)) headers = None"
    unfolding find_None_iff exact_match_def using assms(1) by blast
  moreover have "find (partial_match (normalize target)) headers = Some (headers ! i)"
    unfolding find_Some_iff using assms by blast
  ultimately show ?thesis
    by (simp add: findBestMatchingHeader_def or_else_def)
qed

lemma findBestMatchingHeader_none:
  assumes "\<forall>h\<in>set headers. normalize h \<noteq> normalize target \<and> \<not> partial_match (normalize target) h"
  shows "findBestMatchingHeader headers target = []"
proof -
  have "find (exact_match (normalize target)) headers = None"
    unfolding find_None_iff exact_match_def using assms by blast
  moreover have "find (partial_match (normalize target)) headers = None"
    unfolding find_None_iff using assms by blast
  ultimately show ?thesis
    by (simp add: findBestMatchingHeader_def or_else_def)
qed

lemma match_example:
  "findBestMatchingHeader [''Transaction Date'', ''Amount''] ''date'' = ''Transaction Date''"
  by code_simp

lemma normalize_Nil: "normalize [] = []"
  by (simp add: normalize_def toLowerCase_def)

lemma catalog_labels_normal: "list_all (\<lambda>label. normalize label \<noteq> []) catalog_labels"
  by code_simp

lemma template_labels_catalog:
  "template \<in> set bankTemplates \<Longrightarrow> set (template_labels template) \<subseteq> set catalog_labels"
  by (auto simp: catalog_labels_def)

text \<open>
  Claim C5. Headers and target are normalized by lower-casing and removing underscores
  and white space. The targets are the labels of the template catalog, whose normal forms
  are not empty. For such a target the first header, in header order, whose normalized
  form equals the normalized target is returned, whatever matches partially before it.
  If no header's normalized form equals the normalized target, the first header whose
  normalized form contains the normalized target or is contained in it is returned; and
  if there is no such header either, the empty string. For the headers
  \<open>Transaction Date\<close>, \<open>Amount\<close> and the target \<open>date\<close> the result is
  \<open>Transaction Date\<close>.
\<close>

theorem findBestMatchingHeader_tiers:
  "(normalize target \<noteq> [] \<longrightarrow>
      (\<forall>i<length headers.
         normalize (headers ! i) = normalize target \<and>
         (\<forall>j<i. normalize (headers ! j) \<noteq> normalize target) \<longrightarrow>
         findBestMatchingHeader headers target = headers ! i)) \<and>
   ((\<forall>h\<in>set headers. normalize h \<noteq> normalize target) \<longrightarrow>
    (\<forall>i<length headers.
       (sublist (normalize target) (normalize (headers ! i)) \<or>
        sublist (normalize (headers ! i)) (normalize target)) \<and>
       (\<forall>j<i. \<not> (sublist (normalize target) (normalize (headers ! j)) \<or>
                  sublist (normalize (headers ! j)) (normalize target))) \<longrightarrow>
       findBestMatchingHeader headers target = headers ! i)) \<and>
   ((\<forall>h\<in>set headers. normalize h \<noteq> normalize target \<and>
       \<not> sublist (normalize target) (normalize h) \<and>
       \<not> sublist (normalize h) (normalize target)) \<longrightarrow>
    findBestMatchingHeader headers target = []) \<and>
   list_all (\<lambda>label. normalize label \<noteq> []) catalog_labels \<and>
   findBestMatchingHeader [''Transaction Date'', ''Amount''] ''date'' = ''Transaction Date''"
proof (intro conjI allI impI)
  fix i
  assume t: "normalize target \<noteq> []" and "i < length headers"
    and e: "normalize (headers ! i) = normalize target \<and>
      (\<forall>j<i. normalize (headers ! j) \<noteq> normalize target)"
  moreover from t e have "headers ! i \<noteq> []"
    using normalize_Nil by force
  ultimately show "findBestMatchingHeader headers target = headers ! i"
    by (simp add: findBestMatchingHeader_exact)
next
  fix i
  assume "\<forall>h\<in>set headers. normalize h \<noteq> normalize target" "i < length headers"
    "(sublist (normalize target) (normalize (headers ! i)) \<or>
        sublist (normalize (headers ! i)) (normalize target)) \<and>
       (\<forall>j<i. \<not> (sublist (normalize target) (normalize (headers ! j)) \<or>
                  sublist (normalize (headers ! j)) (normalize target)))"
  then show "findBestMatchingHeader headers target = headers ! i"
    by (intro findBestMatchingHeader_partial) (auto simp: partial_match_def str_includes_def)
next
  assume "\<forall>h\<in>set headers. normalize h \<noteq> normalize target \<and>
       \<not> sublist (normalize target) (normalize h) \<and>
       \<not> sublist (normalize h) (normalize target)"
  then show "findBestMatchingHeader headers target = []"
    by (intro findBestMatchingHeader_none) (auto simp: partial_match_def str_includes_def)
next
  show "list_all (\<lambda>label. normalize label \<noteq> []) catalog_labels"
    by (rule catalog_labels_normal)
next
  show "findBestMatchingHeader [''Transaction Date'', ''Amount''] ''date'' = ''Transaction Date''"
    by (rule match_example)
qed

lemma normalize_examples:
  "normalize ''Amount'' = ''amount''" "normalize ''AMOUNT'' = ''amount''"
  "normalize ''Memo'' = ''memo''" "normalize ''Posting Date'' = ''postingdate''"
  "normalize ''Value Date'' = ''valuedate''" "normalize ''date'' = ''date''"
  "normalize ''transaction_date'' = ''transactiondate''"
  "normalize example_spaced_header = ''transactiondate''"
  "normalize example_accented_header = example_accented_target"
  "normalize example_accented_target = example_accented_target"
  by code_simp+

theorem findBestMatchingHeader_tiers_witness:
  "findBestMatchingHeader [''Amount'', ''amount''] ''AMOUNT'' = ''Amount'' \<and>
   findBestMatchingHeader [''Memo'', example_spaced_header] ''transaction_date'' =
     example_spaced_header \<and>
   findBestMatchingHeader [example_accented_header] example_accented_target =
     example_accented_header \<and>
   findBestMatchingHeader [''Memo'', ''Posting Date'', ''Value Date''] ''date'' = ''Posting Date'' \<and>
   findBestMatchingHeader [''Memo''] ''date'' = [] \<and>
   ''transaction_date'' \<in> set catalog_labels"
proof -
  let ?hs = "[''Memo'', ''Posting Date'', ''Value Date'']"
  note n = normalize_examples
  have s: "\<not> sublist ''date'' ''memo''" "\<not> sublist ''memo'' ''date''"
    "sublist ''date'' ''postingdate''"
    by code_simp+
  have at: "example_accented_target \<noteq> []"
    by (simp add: example_accented_target_def)
  have a: "findBestMatchingHeader [''Amount'', ''amount''] ''AMOUNT'' = ''Amount''"
    using findBestMatchingHeader_tiers [of "''AMOUNT''" "[''Amount'', ''amount'']",
        THEN conjunct1, rule_format, of 0]
    by (simp add: n)
  have a2: "findBestMatchingHeader [''Memo'', example_spaced_header] ''transaction_date'' =
      example_spaced_header"
    using findBestMatchingHeader_tiers [of "''transaction_date''"
        "[''Memo'', example_spaced_header]", THEN conjunct1, rule_format, of 1]
    by (simp add: n)
  have a3: "findBestMatchingHeader [example_accented_header] example_accented_target =
      example_accented_header"
    using findBestMatchingHeader_tiers [of example_accented_target "[example_accented_header]",
        THEN conjunct1, rule_format, of 0]
    by (simp add: n at)
  have h1: "\<forall>h\<in>set ?hs. normalize h \<noteq> normalize ''date''"
    by (simp add: n)
  have h2: "1 < length ?hs"
    by simp
  have h3: "(sublist (normalize ''date'') (normalize (?hs ! 1)) \<or>
        sublist (normalize (?hs ! 1)) (normalize ''date'')) \<and>
       (\<forall>j<1. \<not> (sublist (normalize ''date'') (normalize (?hs ! j)) \<or>
                  sublist (normalize (?hs ! j)) (normalize ''date'')))"
    by (simp add: n s)
  have "findBestMatchingHeader ?hs ''date'' = ?hs ! 1"
    using findBestMatchingHeader_tiers [of "''date''" ?hs] h1 h2 h3 by blast
  then have b: "findBestMatchingHeader ?hs ''date'' = ''Posting Date''"
    by simp
  have c: "findBestMatchingHeader [''Memo''] ''date'' = []"
    using findBestMatchingHeader_tiers [of "''date''" "[''Memo'']",
        THEN conjunct2, THEN conjunct2, THEN conjunct1]
    by (simp add: n s)
  have d: "''transaction_date'' \<in> set catalog_labels"
    by (simp add: catalog_labels_def template_labels_def bankTemplates_def)
  show ?thesis using a a2 a3 b c d by simp
qed

text \<open>
  The exact tier is guarded by the truthiness of the header found. A target whose normal
  form is empty, which the page never passes, is matched exactly by an empty header, and
  that header, being falsy, is passed over for the first partial match.
\<close>

lemma findBestMatchingHeader_empty_target:
  "normalize [] = [] \<and> findBestMatchingHeader [''a'', []] [] = ''a''"
  by code_simp


subsection \<open>Tokenizer\<close>

lemma collect_rows_filter:
  "collect_rows headers ls data =
     data @ filter (\<lambda>row. length row = length headers) (map parseCsvLine ls)"
  by (induction ls arbitrary: data) (simp_all add: Let_def)

lemma parseRawCSV_error:
  "(\<exists>e. parseRawCSV text = Inl e) \<longleftrightarrow> length (content_lines text) < 2"
  by (simp add: parseRawCSV_def Let_def nonblank_lines_content)

lemma parseRawCSV_rows:
  assumes "2 \<le> length (content_lines text)"
  shows "parseRawCSV text =
     Inr (parseCsvLine (hd (content_lines text)),
          filter (\<lambda>row. length row = length (parseCsvLine (hd (content_lines text))))
            (map parseCsvLine (tl (content_lines text))))"
  using assms by (simp add: parseRawCSV_def Let_def collect_rows_filter nonblank_lines_content)

text \<open>
  Claim C4. \<open>parseRawCSV\<close> fails, with its format error, exactly when the text has
  fewer than two lines that are not blank, a line being blank when it holds nothing but
  white space. Otherwise it returns the first such line parsed as the headers and, in
  order, exactly the parsed later lines that have as many fields as the headers. So every
  returned row is as long as the headers, there are at most as many rows as data lines,
  and when every data line has as many fields as the headers there are exactly as many
  rows as data lines.
\<close>

theorem parseRawCSV_contract:
  "((\<exists>e. parseRawCSV text = Inl e) \<longleftrightarrow> length (content_lines text) < 2) \<and>
   (length (content_lines text) < 2 \<longrightarrow>
      parseRawCSV text =
        Inl (Error ''CSV file must contain at least a header row and one data row'')) \<and>
   (2 \<le> length (content_lines text) \<longrightarrow>
      parseRawCSV text =
        Inr (parseCsvLine (hd (content_lines text)),
             filter (\<lambda>row. length row = length (parseCsvLine (hd (content_lines text))))
               (map parseCsvLine (tl (content_lines text))))) \<and>
   (\<forall>headers rows. parseRawCSV text = Inr (headers, rows) \<longrightarrow>
      (\<forall>row\<in>set rows. length row = length headers) \<and>
      length rows \<le> length (tl (content_lines text)) \<and>
      ((\<forall>line\<in>set (tl (content_lines text)). length (parseCsvLine line) = length headers) \<longrightarrow>
       length rows = length (tl (content_lines text))))"
proof (intro conjI allI impI)
  show "(\<exists>e. parseRawCSV text = Inl e) \<longleftrightarrow> length (content_lines text) < 2"
    by (rule parseRawCSV_error)
next
  assume "length (content_lines text) < 2"
  then show "parseRawCSV text =
      Inl (Error ''CSV file must contain at least a header row and one data row'')"
    by (simp add: parseRawCSV_def Let_def nonblank_lines_content)
next
  assume "2 \<le> length (content_lines text)"
  then show "parseRawCSV text =
      Inr (parseCsvLine (hd (content_lines text)),
           filter (\<lambda>row. length row = length (parseCsvLine (hd (content_lines text))))
             (map parseCsvLine (tl (content_lines text))))"
    by (rule parseRawCSV_rows)
next
  fix headers rows
  assume r: "parseRawCSV text = Inr (headers, rows)"
  then have two: "2 \<le> length (content_lines text)"
    by (simp add: parseRawCSV_def Let_def nonblank_lines_content split: if_splits)
  from parseRawCSV_rows [OF two] r
  have h: "headers = parseCsvLine (hd (content_lines text))"
    and rs: "rows = filter (\<lambda>row. length row = length headers)
                      (map parseCsvLine (tl (content_lines text)))"
    by simp_all
  show "\<forall>row\<in>set rows. length row = length headers"
    by (simp add: rs)
  show "length rows \<le> length (tl (content_lines text))"
    unfolding rs by (rule order_trans [OF length_filter_le]) simp
  assume "\<forall>line\<in>set (tl (content_lines text)). length (parseCsvLine line) = length headers"
  then have "filter (\<lambda>row. length row = length headers)
               (map parseCsvLine (tl (content_lines text)))
             = map parseCsvLine (tl (content_lines text))"
    by (simp add: filter_id_conv)
  then show "length rows = length (tl (content_lines text))"
    by (simp add: rs)
qed

lemma content_lines_examples:
  "content_lines ''date,amount'' = [''date,amount'']"
  "content_lines example_blank_lines = [''h'']"
  "content_lines example_one_column = [''h'', ''1'', ''2'']"
  "content_lines example_quoted = [''a,b'', ''1,2'', ''3'', example_quoted_line]"
  by (simp_all add: content_lines_def blank_def is_whitespace_def example_blank_lines_def
      example_one_column_def example_quoted_def example_quoted_line_def)

lemma parseCsvLine_examples:
  "parseCsvLine ''h'' = [''h'']" "parseCsvLine ''1'' = [''1'']" "parseCsvLine ''2'' = [''2'']"
  "parseCsvLine ''a,b'' = [''a'', ''b'']" "parseCsvLine ''1,2'' = [''1'', ''2'']"
  "parseCsvLine ''3'' = [''3'']" "parseCsvLine [] = [[]]"
  "parseCsvLine example_quoted_line = [''x, y'', ''z'']"
  by (simp_all add: parseCsvLine_def trim_def is_whitespace_def strip_quotes_def
      example_quoted_line_def)

theorem parseRawCSV_contract_witness:
  "parseRawCSV ''date,amount'' =
     Inl (Error ''CSV file must contain at least a header row and one data row'') \<and>
   length (split_on (\<lambda>c. c = CHR 0x0A) example_blank_lines) = 4 \<and>
   parseRawCSV example_blank_lines =
     Inl (Error ''CSV file must contain at least a header row and one data row'') \<and>
   split_on (\<lambda>c. c = CHR 0x0A) example_one_column = [''h'', ''1'', [], ''2''] \<and>
   parseCsvLine [] = [[]] \<and>
   parseRawCSV example_one_column = Inr ([''h''], [[''1''], [''2'']]) \<and>
   parseRawCSV example_quoted = Inr ([''a'', ''b''], [[''1'', ''2''], [''x, y'', ''z'']]) \<and>
   length (tl (content_lines example_one_column)) = 2 \<and>
   (\<exists>rows. parseRawCSV example_one_column = Inr ([''h''], rows) \<and> length rows = 2)"
proof -
  note l = content_lines_examples
  note p = parseCsvLine_examples
  have s: "length (split_on (\<lambda>c. c = CHR 0x0A) example_blank_lines) = 4"
    "split_on (\<lambda>c. c = CHR 0x0A) example_one_column = [''h'', ''1'', [], ''2'']"
    by (simp_all add: example_blank_lines_def example_one_column_def)
  have a: "parseRawCSV ''date,amount'' =
     Inl (Error ''CSV file must contain at least a header row and one data row'')"
    using parseRawCSV_contract [of "''date,amount''"] by (simp add: l)
  have b: "parseRawCSV example_blank_lines =
     Inl (Error ''CSV file must contain at least a header row and one data row'')"
    using parseRawCSV_contract [of example_blank_lines] by (simp add: l)
  have c: "parseRawCSV example_one_column = Inr ([''h''], [[''1''], [''2'']])"
    using parseRawCSV_contract [of example_one_column] by (simp add: l p)
  have d: "parseRawCSV example_quoted = Inr ([''a'', ''b''], [[''1'', ''2''], [''x, y'', ''z'']])"
    using parseRawCSV_contract [of example_quoted] by (simp add: l p)
  have e: "length [[''1''], [''2'']] = length (tl (content_lines example_one_column))"
    using parseRawCSV_contract [of example_one_column] c by (simp add: l p)
  show ?thesis
    using a b c d e s by (simp add: l p)
qed


subsection \<open>Date parser\<close>

lemma days_in_month_pos: "28 \<le> days_in_month y m"
  by (simp add: days_in_month_def)

lemma roll_forward_day_le: "dayOfMonth (roll_forward y m d) \<le> d"
proof (induction y m d rule: roll_forward.induct)
  case (1 y m d)
  show ?case
  proof (cases "days_in_month y m < d")
    case True
    with "1" days_in_month_pos [of y m] show ?thesis
      by (subst roll_forward.simps) (auto split: if_splits)
  next
    case False
    then show ?thesis by (subst roll_forward.simps) simp
  qed
qed

lemma roll_forward_rolled:
  assumes "days_in_month y m < d"
  shows "dayOfMonth (roll_forward y m d) < d"
proof -
  have "dayOfMonth (roll_forward y m d) \<le> d - days_in_month y m"
    using assms roll_forward_day_le
    by (subst roll_forward.simps) (simp)
  with days_in_month_pos [of y m] show ?thesis by linarith
qed

lemma roll_forward_same:
  "d \<le> days_in_month y m \<Longrightarrow> roll_forward y m d = \<lparr>fullYear = y, month0 = m, dayOfMonth = d\<rparr>"
  by (subst roll_forward.simps) simp

lemma roll_back_day_ge: "d < 1 \<Longrightarrow> 1 \<le> dayOfMonth (roll_back y m d)"
proof (induction y m d rule: roll_back.induct)
  case (1 y m d)
  then show ?case
    by (subst roll_back.simps) (auto simp: roll_back.simps [of _ _ "d + _"] split: if_splits)
qed

lemma calendar_fields_echo:
  "calendar_fields y m d = \<lparr>fullYear = y', month0 = m', dayOfMonth = d\<rparr> \<longleftrightarrow>
     y' = y \<and> m' = m \<and> 1 \<le> d \<and> d \<le> days_in_month y m"
proof (cases "d < 1")
  case True
  with roll_back_day_ge [of d y m] show ?thesis
    by (auto simp: calendar_fields_def)
next
  case False
  show ?thesis
  proof (cases "days_in_month y m < d")
    case True
    with roll_forward_rolled [of y m d] False show ?thesis
      by (auto simp: calendar_fields_def)
  next
    case False
    with \<open>\<not> d < 1\<close> show ?thesis
      by (auto simp: calendar_fields_def roll_forward_same)
  qed
qed

lemma echoes_iff:
  "echoes y m d \<longleftrightarrow>
     \<not> (0 \<le> y \<and> y \<le> 99) \<and> 0 \<le> m \<and> m \<le> 11 \<and> 1 \<le> d \<and> d \<le> days_in_month y m \<and>
     \<bar>MakeDay y m d\<bar> \<le> 100000000"
proof -
  have m: "m mod 12 = m \<longleftrightarrow> 0 \<le> m \<and> m \<le> 11"
    by presburger
  have d0: "0 \<le> m \<and> m \<le> 11 \<Longrightarrow> m div 12 = 0"
    by simp
  show ?thesis
    unfolding echoes_def new_Date_def
    by (auto simp: Let_def calendar_fields_echo m d0)
qed

lemma int_div_bounds:
  fixes x k :: int
  assumes "0 < k"
  shows "k * (x div k) \<le> x" "x < k * (x div k) + k"
proof -
  have "x = k * (x div k) + x mod k"
    by simp
  moreover have "0 \<le> x mod k" "x mod k < k"
    using assms by simp_all
  ultimately show "k * (x div k) \<le> x" "x < k * (x div k) + k"
    by linarith+
qed

lemma DayFromYear_bounds:
  assumes "100 \<le> y" "y \<le> 275759"
  shows "- 700000 \<le> DayFromYear y" "DayFromYear y \<le> 99999635"
proof -
  define a where "a = (y - 1969) div 4"
  define b where "b = (y - 1901) div 100"
  define c where "c = (y - 1601) div 400"
  have "(0::int) < 4" "(0::int) < 100" "(0::int) < 400"
    by simp_all
  note bounds = int_div_bounds [OF this(1), of "y - 1969"] int_div_bounds [OF this(2), of "y - 1901"]
    int_div_bounds [OF this(3), of "y - 1601"]
  have ba: "4 * a \<le> y - 1969" "y - 1969 < 4 * a + 4"
    and bb: "100 * b \<le> y - 1901" "y - 1901 < 100 * b + 100"
    and bc: "400 * c \<le> y - 1601" "y - 1601 < 400 * c + 400"
    using bounds by (simp_all add: a_def b_def c_def)
  have eq: "DayFromYear y = 365 * (y - 1970) + a - b + c"
    by (simp add: DayFromYear_def a_def b_def c_def)
  have scaled: "400 * DayFromYear y =
      146000 * (y - 1970) + 100 * (4 * a) - 4 * (100 * b) + 400 * c"
    by (simp add: eq)
  have la: "100 * (y - 1973) \<le> 100 * (4 * a)" and ua: "100 * (4 * a) \<le> 100 * (y - 1969)"
    using ba by simp_all
  have lb: "4 * (y - 2001) \<le> 4 * (100 * b)" and ub: "4 * (100 * b) \<le> 4 * (y - 1901)"
    using bb by simp_all
  have lc: "y - 2001 \<le> 400 * c" and uc: "400 * c \<le> y - 1601"
    using bc by simp_all
  have "146000 * (y - 1970) + 100 * (y - 1973) - 4 * (y - 1901) + (y - 2001)
      \<le> 400 * DayFromYear y"
    unfolding scaled using la ub lc by linarith
  then have "400 * (- 700000) \<le> 400 * DayFromYear y"
    using assms(1) by simp
  then show "- 700000 \<le> DayFromYear y"
    by simp
  have "400 * DayFromYear y
      \<le> 146000 * (y - 1970) + 100 * (y - 1969) - 4 * (y - 2001) + (y - 1601)"
    unfolding scaled using ua lb uc by linarith
  then have "400 * DayFromYear y \<le> 400 * 99999635"
    using assms(2) by simp
  then show "DayFromYear y \<le> 99999635"
    by simp
qed

lemma days_before_month_table:
  "days_before_month y 0 = 0"
  "days_before_month y 1 = 31"
  "days_before_month y 2 = 31 + days_in_month y 1"
  "days_before_month y 3 = 62 + days_in_month y 1"
  "days_before_month y 4 = 92 + days_in_month y 1"
  "days_before_month y 5 = 123 + days_in_month y 1"
  "days_before_month y 6 = 153 + days_in_month y 1"
  "days_before_month y 7 = 184 + days_in_month y 1"
  "days_before_month y 8 = 215 + days_in_month y 1"
  "days_before_month y 9 = 245 + days_in_month y 1"
  "days_before_month y 10 = 276 + days_in_month y 1"
  "days_before_month y 11 = 306 + days_in_month y 1"
  by (simp_all add: days_before_month_def upto.simps days_in_month_def)


lemma days_before_month_bounds:
  assumes "0 \<le> m" "m \<le> 11"
  shows "0 \<le> days_before_month y m" "days_before_month y m \<le> 335"
proof -
  from assms have "m = 0 \<or> m = 1 \<or> m = 2 \<or> m = 3 \<or> m = 4 \<or> m = 5 \<or> m = 6 \<or> m = 7 \<or>
      m = 8 \<or> m = 9 \<or> m = 10 \<or> m = 11"
    by arith
  moreover have "28 \<le> days_in_month y 1" "days_in_month y 1 \<le> 29"
    by (simp_all add: days_in_month_def)
  ultimately show "0 \<le> days_before_month y m" "days_before_month y m \<le> 335"
    by (auto simp: days_before_month_table)
qed

lemma MakeDay_in_range:
  assumes "100 \<le> y" "y \<le> 275759" "0 \<le> m" "m \<le> 11" "1 \<le> d" "d \<le> days_in_month y m"
  shows "\<bar>MakeDay y m d\<bar> \<le> 100000000"
proof -
  have "MakeDay y m d = DayFromYear y + days_before_month y m + d - 1"
    using assms by (simp add: MakeDay_def)
  moreover have "d \<le> 31"
    using assms(6) by (simp add: days_in_month_def split: if_splits)
  ultimately show ?thesis
    using DayFromYear_bounds [OF assms(1,2)] days_before_month_bounds [OF assms(3,4), of y] assms(5)
    by linarith
qed

lemma case_three:
  "(case xs of [a, b, c] \<Rightarrow> f a b c | _ \<Rightarrow> None) =
     (if length xs = 3 then f (xs ! 0) (xs ! 1) (xs ! 2) else None)"
  by (auto split: list.splits)

lemma echo_check:
  "(let date = new_Date Y M D
    in if strict_eq (getFullYear date) Y \<and> strict_eq (getMonth date) M \<and>
          strict_eq (getDate date) D
       then date else None) =
   (case (Y, M, D) of
      (Some y, Some m, Some d) \<Rightarrow>
        if echoes y m d then Some \<lparr>fullYear = y, month0 = m, dayOfMonth = d\<rparr> else None
    | _ \<Rightarrow> None)"
proof (cases Y)
  case None
  then show ?thesis
    by (simp add: new_Date_def strict_eq_def getFullYear_def)
next
  case (Some y)
  note Y = this
  show ?thesis
  proof (cases M)
    case None
    then show ?thesis
      using Y by (simp add: new_Date_def strict_eq_def getMonth_def)
  next
    case (Some m)
    note M = this
    show ?thesis
    proof (cases D)
      case None
      then show ?thesis
        using Y M by (simp add: new_Date_def strict_eq_def getDate_def)
    next
      case (Some d)
      show ?thesis
      proof (cases "new_Date (Some y) (Some m) (Some d)")
        case None
        then show ?thesis
          using Y M Some by (simp add: echoes_def strict_eq_def getFullYear_def)
      next
        case (Some dt)
        then show ?thesis
          using Y M \<open>D = Some d\<close>
          by (cases dt)
            (auto simp: echoes_def strict_eq_def getFullYear_def getMonth_def getDate_def)
      qed
    qed
  qed
qed

lemma accepted_date_echo:
  "accepted_date yearText monthText dayText =
     (case (parseInt yearText, minus_one (parseInt monthText), parseInt dayText) of
        (Some y, Some m, Some d) \<Rightarrow>
          if echoes y m d then Some \<lparr>fullYear = y, month0 = m, dayOfMonth = d\<rparr> else None
      | _ \<Rightarrow> None)"
  by (simp add: accepted_date_def minus_one_def split: option.splits)

lemma parseDate_YMD:
  "parseDate s ''YYYY-MM-DD'' =
     (case date_parts s of [a, b, c] \<Rightarrow> accepted_date a b c | _ \<Rightarrow> None)"
  unfolding case_three accepted_date_echo echo_check [symmetric]
  by (simp add: parseDate_def date_parts_def date_components_def Let_def)

lemma parseDate_MDY:
  "parseDate s ''MM/DD/YYYY'' =
     (case date_parts s of [a, b, c] \<Rightarrow> accepted_date c a b | _ \<Rightarrow> None)"
  unfolding case_three accepted_date_echo echo_check [symmetric]
  by (simp add: parseDate_def date_parts_def date_components_def Let_def)

lemma parseDate_DMY:
  "parseDate s ''DD/MM/YYYY'' =
     (case date_parts s of [a, b, c] \<Rightarrow> accepted_date c b a | _ \<Rightarrow> None)"
  unfolding case_three accepted_date_echo echo_check [symmetric]
  by (simp add: parseDate_def date_parts_def date_components_def Let_def)

lemma parseDate_other_format:
  "format \<notin> {''YYYY-MM-DD'', ''MM/DD/YYYY'', ''DD/MM/YYYY''} \<Longrightarrow> parseDate s format = None"
  by (simp add: parseDate_def date_components_def Let_def)


lemma parseDate_examples:
  "parseDate ''2024-02-30'' ''YYYY-MM-DD'' = None"
  "parseDate ''2024-02-29'' ''YYYY-MM-DD'' = Some \<lparr>fullYear = 2024, month0 = 1, dayOfMonth = 29\<rparr>"
  "parseDate ''02/29/2023'' ''MM/DD/YYYY'' = None"
  by code_simp+

text \<open>
  Claim C2. \<open>parseDate\<close> is a total function into a Date or \<open>null\<close>: no step of it
  can throw on a string. For each of the three layouts it returns \<open>null\<close> unless the
  text, stripped of every character but digits and the separators, splits at the
  separators into exactly three pieces, all numeric, whose year, month and day, assigned
  as the layout says, build a Date that echoes them; then it returns that date. A date
  echoes its components exactly when the year is not from 0 to 99, the month is one of
  the twelve, the day exists in that month of that year and the day lies within
  100,000,000 days of 1 January 1970, which holds for all years from 100 to 275759; so
  a day that would roll over into another month is rejected. \<open>2024-02-30\<close> under
  year-month-day gives \<open>null\<close>, \<open>2024-02-29\<close> a date, and \<open>02/29/2023\<close> under
  month-day-year \<open>null\<close>.
\<close>

theorem parseDate_correct:
  "parseDate s ''YYYY-MM-DD'' =
     (case date_parts s of [a, b, c] \<Rightarrow> accepted_date a b c | _ \<Rightarrow> None) \<and>
   parseDate s ''MM/DD/YYYY'' =
     (case date_parts s of [a, b, c] \<Rightarrow> accepted_date c a b | _ \<Rightarrow> None) \<and>
   parseDate s ''DD/MM/YYYY'' =
     (case date_parts s of [a, b, c] \<Rightarrow> accepted_date c b a | _ \<Rightarrow> None) \<and>
   (echoes y m d \<longleftrightarrow>
      \<not> (0 \<le> y \<and> y \<le> 99) \<and> 0 \<le> m \<and> m \<le> 11 \<and> 1 \<le> d \<and> d \<le> days_in_month y m \<and>
      \<bar>MakeDay y m d\<bar> \<le> 100000000) \<and>
   (100 \<le> y \<and> y \<le> 275759 \<and> 0 \<le> m \<and> m \<le> 11 \<and> 1 \<le> d \<and> d \<le> days_in_month y m \<longrightarrow>
      echoes y m d) \<and>
   parseDate ''2024-02-30'' ''YYYY-MM-DD'' = None \<and>
   parseDate ''2024-02-29'' ''YYYY-MM-DD'' =
     Some \<lparr>fullYear = 2024, month0 = 1, dayOfMonth = 29\<rparr> \<and>
   parseDate ''02/29/2023'' ''MM/DD/YYYY'' = None"
proof -
  have "echoes y m d"
    if "100 \<le> y \<and> y \<le> 275759 \<and> 0 \<le> m \<and> m \<le> 11 \<and> 1 \<le> d \<and> d \<le> days_in_month y m"
    using that MakeDay_in_range [of y m d] by (simp add: echoes_iff)
  then show ?thesis
    using parseDate_YMD [of s] parseDate_MDY [of s] parseDate_DMY [of s] echoes_iff [of y m d]
      parseDate_examples
    by blast
qed

theorem parseDate_correct_witness:
  "parseDate ''15/03/2024'' ''DD/MM/YYYY'' =
     Some \<lparr>fullYear = 2024, month0 = 2, dayOfMonth = 15\<rparr> \<and>
   parseDate ''31/02/2024'' ''DD/MM/YYYY'' = None \<and>
   parseDate ''2024/3'' ''YYYY-MM-DD'' = None \<and>
   echoes 2024 2 15 \<and> \<not> echoes 2024 1 31"
proof -
  have p: "date_parts ''15/03/2024'' = [''15'', ''03'', ''2024'']"
    "date_parts ''31/02/2024'' = [''31'', ''02'', ''2024'']"
    "date_parts ''2024/3'' = [''2024'', ''3'']"
    by code_simp+
  have i: "parseInt ''15'' = Some 15" "parseInt ''03'' = Some 3" "parseInt ''2024'' = Some 2024"
    "parseInt ''31'' = Some 31" "parseInt ''02'' = Some 2"
    by code_simp+
  have h1: "(100::int) \<le> 2024 \<and> (2024::int) \<le> 275759 \<and> (0::int) \<le> 2 \<and> (2::int) \<le> 11 \<and>
      (1::int) \<le> 15 \<and> 15 \<le> days_in_month 2024 2"
    by (simp add: days_in_month_def)
  have h2: "\<not> 31 \<le> days_in_month 2024 1"
    by (simp add: days_in_month_def)
  have e1: "echoes 2024 2 15"
    using parseDate_correct [of "''15/03/2024''" 2024 2 15] h1 by blast
  have e2: "\<not> echoes 2024 1 31"
    using parseDate_correct [of "''31/02/2024''" 2024 1 31] h2 by blast
  have a: "parseDate ''15/03/2024'' ''DD/MM/YYYY'' =
      Some \<lparr>fullYear = 2024, month0 = 2, dayOfMonth = 15\<rparr>"
    using parseDate_correct [of "''15/03/2024''" 2024 2 15] e1
    by (simp add: p i accepted_date_def)
  have b: "parseDate ''31/02/2024'' ''DD/MM/YYYY'' = None"
    using parseDate_correct [of "''31/02/2024''" 2024 1 31] e2
    by (simp add: p i accepted_date_def)
  have c: "parseDate ''2024/3'' ''YYYY-MM-DD'' = None"
    using parseDate_correct [of "''2024/3''" 2024 1 31]
    by (simp add: p)
  show ?thesis
    using a b c e1 e2 by simp
qed


subsection \<open>Validator\<close>

lemma well_typed_fields:
  assumes "well_typed t"
  obtains d a desc where "get_prop t ''date'' = Str d" "get_prop t ''amount'' = Str a"
    "get_prop t ''description'' = Str desc"
proof -
  from assms have "get_prop t ''date'' \<noteq> Undefined" "get_prop t ''amount'' \<noteq> Undefined"
    "get_prop t ''description'' \<noteq> Undefined"
    by (simp_all add: well_typed_def)
  then show thesis
    using that by (metis jsval.exhaust)
qed

lemma validate_rows_step:
  assumes "well_typed t"
  shows "validate_rows fmt (t # ts) index errors =
     validate_rows fmt ts (Suc index) (errors @ row_issues fmt index t)"
proof -
  from assms obtain d a desc where
    f: "get_prop t ''date'' = Str d" "get_prop t ''amount'' = Str a"
       "get_prop t ''description'' = Str desc"
    by (rule well_typed_fields)
  show ?thesis
    by (simp add: f Let_def row_issues_def date_ok_def amount_ok_def description_ok_def
        text_of_def isNaN_def parse_amount_def amount_text_filter parseFloat_NaN_iff
        trim_empty_iff)
qed

lemma validate_rows_untyped_step:
  assumes "\<not> well_typed t"
  shows "validate_rows fmt (t # ts) index errors = Inl TypeError"
  using assms unfolding well_typed_def
  by (cases "get_prop t ''date''"; cases "get_prop t ''amount''";
      cases "get_prop t ''description''"; simp add: Let_def)

lemma validate_rows_issues:
  assumes "\<forall>t\<in>set ts. well_typed t"
  shows "validate_rows fmt ts index errors =
     Inr (errors @ concat (map (\<lambda>(i, t). row_issues fmt i t) (zip [index..<index + length ts] ts)))"
  using assms
proof (induction ts arbitrary: index errors)
  case Nil
  then show ?case by simp
next
  case (Cons t ts)
  have "index < index + length (t # ts)"
    by simp
  from upt_conv_Cons [OF this]
  have r: "[index..<index + length (t # ts)] = index # [Suc index..<Suc index + length ts]"
    by simp
  have "validate_rows fmt (t # ts) index errors =
      validate_rows fmt ts (Suc index) (errors @ row_issues fmt index t)"
    by (rule validate_rows_step) (use Cons.prems in simp)
  also have "\<dots> = Inr ((errors @ row_issues fmt index t) @
      concat (map (\<lambda>(i, t). row_issues fmt i t) (zip [Suc index..<Suc index + length ts] ts)))"
    using Cons.prems by (intro Cons.IH) simp
  finally show ?case
    unfolding r by simp
qed

lemma validate_rows_untyped:
  assumes "\<not> (\<forall>t\<in>set ts. well_typed t)"
  shows "validate_rows fmt ts index errors = Inl TypeError"
  using assms
proof (induction ts arbitrary: index errors)
  case Nil
  then show ?case by simp
next
  case (Cons t ts)
  show ?case
  proof (cases "well_typed t")
    case True
    with Cons.prems have rest: "\<not> (\<forall>t\<in>set ts. well_typed t)"
      by simp
    have "validate_rows fmt (t # ts) index errors =
        validate_rows fmt ts (Suc index) (errors @ row_issues fmt index t)"
      using True by (rule validate_rows_step)
    also have "\<dots> = Inl TypeError"
      by (rule Cons.IH [OF rest])
    finally show ?thesis .
  next
    case False
    then show ?thesis
      by (rule validate_rows_untyped_step)
  qed
qed

lemma row_issues_empty:
  "row_issues fmt index t = [] \<longleftrightarrow> date_ok fmt t \<and> amount_ok t \<and> description_ok t"
  by (simp add: row_issues_def)

lemma row_issues_length:
  "length (row_issues fmt index t) =
     (if date_ok fmt t then 0 else 1) + (if amount_ok t then 0 else 1) +
     (if description_ok t then 0 else 1)"
  by (simp add: row_issues_def)

lemma all_zip_index:
  "(\<forall>p\<in>set (zip [0..<length ts] ts). P (snd p)) \<longleftrightarrow> (\<forall>t\<in>set ts. P t)"
proof
  assume l: "\<forall>p\<in>set (zip [0..<length ts] ts). P (snd p)"
  show "\<forall>t\<in>set ts. P t"
  proof
    fix t
    assume "t \<in> set ts"
    then obtain i where "i < length ts" "ts ! i = t"
      by (auto simp: in_set_conv_nth)
    then have "(i, t) \<in> set (zip [0..<length ts] ts)"
      unfolding in_set_zip by (intro exI [of _ i]) simp
    with l show "P t" by fastforce
  qed
next
  assume "\<forall>t\<in>set ts. P t"
  then show "\<forall>p\<in>set (zip [0..<length ts] ts). P (snd p)"
    by (auto dest: set_zip_rightD)
qed

lemma validateTransactions_example:
  "validateTransactions example_candidates ''YYYY-MM-DD'' = Inr [''Row 2: Missing description'']"
  by code_simp

text \<open>
  Claim C3. For every sequence of candidates (their date, amount and description being
  strings) and every date layout, the validator returns, row after row, the issues of
  each row: one issue for each violated check among the date that parses under the
  layout, the amount whose text, once every character but digits, \<open>.\<close> and \<open>-\<close> is
  removed, starts with a number, and the description that holds a character other than
  white space; no check hides another. The result is empty exactly when every candidate
  passes all three checks. For the two-row example in which only the second row has a
  blank description it is the single issue \<open>Row 2: Missing description\<close>.
\<close>

theorem validateTransactions_complete:
  assumes "\<forall>t\<in>set ts. well_typed t"
  shows "validateTransactions ts fmt =
       Inr (concat (map (\<lambda>(i, t). row_issues fmt i t) (zip [0..<length ts] ts))) \<and>
     (\<forall>i t. length (row_issues fmt i t) =
        (if date_ok fmt t then 0 else 1) + (if amount_ok t then 0 else 1) +
        (if description_ok t then 0 else 1)) \<and>
     (validateTransactions ts fmt = Inr [] \<longleftrightarrow>
        (\<forall>t\<in>set ts. date_ok fmt t \<and> amount_ok t \<and> description_ok t)) \<and>
     validateTransactions example_candidates ''YYYY-MM-DD'' = Inr [''Row 2: Missing description'']"
proof -
  have v: "validateTransactions ts fmt =
      Inr (concat (map (\<lambda>(i, t). row_issues fmt i t) (zip [0..<length ts] ts)))"
    using validate_rows_issues [OF assms, of fmt 0 "[]"]
    by (simp add: validateTransactions_def)
  have "concat (map (\<lambda>(i, t). row_issues fmt i t) (zip [0..<length ts] ts)) = [] \<longleftrightarrow>
      (\<forall>p\<in>set (zip [0..<length ts] ts). date_ok fmt (snd p) \<and> amount_ok (snd p) \<and>
         description_ok (snd p))"
    by (auto simp: row_issues_empty)
  also have "\<dots> \<longleftrightarrow> (\<forall>t\<in>set ts. date_ok fmt t \<and> amount_ok t \<and> description_ok t)"
    by (rule all_zip_index)
  finally have e: "validateTransactions ts fmt = Inr [] \<longleftrightarrow>
      (\<forall>t\<in>set ts. date_ok fmt t \<and> amount_ok t \<and> description_ok t)"
    by (simp add: v)
  show ?thesis
    using v e row_issues_length validateTransactions_example by blast
qed

lemma example_row_checks:
  "well_typed example_priced_row" "well_typed example_broken_row"
  "date_ok ''YYYY-MM-DD'' example_priced_row" "amount_ok example_priced_row"
  "description_ok example_priced_row"
  "\<not> date_ok ''YYYY-MM-DD'' example_broken_row" "\<not> amount_ok example_broken_row"
  "\<not> description_ok example_broken_row"
  "text_of (get_prop example_broken_row ''date'') = ''2024-02-30''"
  "text_of (get_prop example_broken_row ''amount'') = ''abc''"
  by code_simp+

theorem validateTransactions_complete_witness:
  "list_all well_typed example_candidates \<and>
   validateTransactions example_candidates ''YYYY-MM-DD'' = Inr [''Row 2: Missing description''] \<and>
   \<not> list_all (\<lambda>t. date_ok ''YYYY-MM-DD'' t \<and> amount_ok t \<and> description_ok t)
       example_candidates \<and>
   length (row_issues ''YYYY-MM-DD'' 1 (example_candidates ! 1)) = 1 \<and>
   list_all well_typed [example_priced_row, example_broken_row] \<and>
   validateTransactions [example_priced_row, example_broken_row] ''YYYY-MM-DD'' =
     Inr [date_issue 1 ''2024-02-30'', amount_issue 1 ''abc'', ''Row 2: Missing description''] \<and>
   amount_text ''$1,234.50'' = ''1234.50'' \<and> parseFloat ''$1,234.50'' = NaN \<and>
   amount_ok example_priced_row \<and> \<not> amount_ok example_broken_row \<and>
   \<not> description_ok example_broken_row"
proof -
  have w: "list_all well_typed example_candidates"
    by code_simp
  then have h: "\<forall>t\<in>set example_candidates. well_typed t"
    by (simp add: list_all_iff)
  note t = validateTransactions_complete [OF h, of "''YYYY-MM-DD''"]
  have a: "validateTransactions example_candidates ''YYYY-MM-DD'' =
      Inr [''Row 2: Missing description'']"
    using t by blast
  have b: "\<not> list_all (\<lambda>t. date_ok ''YYYY-MM-DD'' t \<and> amount_ok t \<and> description_ok t)
       example_candidates"
    using t a by (simp add: list_all_iff)
  have c: "date_ok ''YYYY-MM-DD'' (example_candidates ! 1)"
    "amount_ok (example_candidates ! 1)" "\<not> description_ok (example_candidates ! 1)"
    by code_simp+
  have d: "length (row_issues ''YYYY-MM-DD'' 1 (example_candidates ! 1)) = 1"
    using t c by simp
  note r = example_row_checks
  have h2: "\<forall>t\<in>set [example_priced_row, example_broken_row]. well_typed t"
    by (simp add: r)
  have n: "description_issue (Suc 0) = ''Row 2: Missing description''"
    by (simp add: description_issue_def string_of_nat.simps)
  from validateTransactions_complete [OF h2, of "''YYYY-MM-DD''", THEN conjunct1]
  have e: "validateTransactions [example_priced_row, example_broken_row] ''YYYY-MM-DD'' =
     Inr [date_issue 1 ''2024-02-30'', amount_issue 1 ''abc'', ''Row 2: Missing description'']"
    by (simp add: row_issues_def r n)
  have f: "amount_text ''$1,234.50'' = ''1234.50''" "parseFloat ''$1,234.50'' = NaN"
    by (simp_all add: amount_text_def parseFloat_def is_digit_def)
  show ?thesis
    using w a b d e f r by simp
qed


subsection \<open>Row mapper\<close>

lemma indexOf_from_absent: "x \<notin> set xs \<Longrightarrow> indexOf_from xs x i = - 1"
  by (induction xs arbitrary: i) auto

lemma indexOf_from_present:
  "x \<in> set xs \<Longrightarrow>
     i \<le> indexOf_from xs x i \<and> indexOf_from xs x i < i + int (length xs) \<and>
     xs ! nat (indexOf_from xs x i - i) = x"
proof (induction xs arbitrary: i)
  case Nil
  then show ?case by simp
next
  case (Cons y ys)
  show ?case
  proof (cases "y = x")
    case True
    then show ?thesis by simp
  next
    case False
    with Cons.prems have "x \<in> set ys" by simp
    define k where "k = indexOf_from ys x (i + 1)"
    from Cons.IH [OF \<open>x \<in> set ys\<close>, of "i + 1"]
    have ih: "i + 1 \<le> k" "k < i + 1 + int (length ys)" "ys ! nat (k - (i + 1)) = x"
      by (simp_all add: k_def)
    have r: "indexOf_from (y # ys) x i = k"
      using False by (simp add: k_def)
    have n: "nat (k - i) = Suc (nat (k - (i + 1)))"
      using ih(1) by arith
    show ?thesis
      unfolding r n using ih by simp
  qed
qed

lemma indexOf_absent: "x \<notin> set xs \<Longrightarrow> indexOf xs x = - 1"
  by (simp add: indexOf_def indexOf_from_absent)

lemma indexOf_present:
  assumes "x \<in> set xs"
  shows "0 \<le> indexOf xs x" "indexOf xs x < int (length xs)" "xs ! nat (indexOf xs x) = x"
  using indexOf_from_present [OF assms, of 0] by (simp_all add: indexOf_def)

lemma optional_index_mapped:
  "mapped_column headers col \<Longrightarrow>
     0 \<le> optional_index headers col \<and> optional_index headers col < int (length headers) \<and>
     headers ! nat (optional_index headers col) = or_else col []"
  by (cases col)
    (auto simp: mapped_column_def optional_index_def truthy_def or_else_def indexOf_present)

lemma optional_index_unmapped:
  "\<not> mapped_column headers col \<Longrightarrow> optional_index headers col = - 1"
  by (cases col)
    (auto simp: mapped_column_def optional_index_def truthy_def or_else_def indexOf_absent)

lemma add_columns_untouched:
  assumes "\<forall>j<length hs. idx + int j \<notin> set consumed \<longrightarrow> hs ! j \<noteq> k"
  shows "add_columns hs idx row consumed t k = t k"
  using assms
proof (induction hs arbitrary: idx t)
  case Nil
  then show ?case by simp
next
  case (Cons h hs)
  have rest: "\<forall>j<length hs. (idx + 1) + int j \<notin> set consumed \<longrightarrow> hs ! j \<noteq> k"
  proof (intro allI impI)
    fix j
    assume "j < length hs" "(idx + 1) + int j \<notin> set consumed"
    with Cons.prems [rule_format, of "Suc j"] show "hs ! j \<noteq> k"
      by (simp add: add.assoc)
  qed
  have head: "idx \<notin> set consumed \<Longrightarrow> h \<noteq> k"
    using Cons.prems [rule_format, of 0] by simp
  show ?case
    using Cons.IH [OF rest] head by (auto simp: set_prop_def)
qed

lemma add_columns_proto:
  "add_columns hs idx row consumed t ''__proto__'' = t ''__proto__''"
  by (induction hs arbitrary: idx t) (simp_all add: set_prop_def)

lemma add_columns_last:
  assumes "j < length hs" "idx + int j \<notin> set consumed" "hs ! j \<noteq> ''__proto__''"
    "\<forall>j'<length hs. j < j' \<and> idx + int j' \<notin> set consumed \<longrightarrow> hs ! j' \<noteq> hs ! j"
  shows "add_columns hs idx row consumed t (hs ! j) = Some (cell row (idx + int j))"
  using assms
proof (induction hs arbitrary: idx t j)
  case Nil
  then show ?case by simp
next
  case (Cons h hs)
  show ?case
  proof (cases j)
    case 0
    have later: "\<forall>j'<length hs. (idx + 1) + int j' \<notin> set consumed \<longrightarrow> hs ! j' \<noteq> h"
    proof (intro allI impI)
      fix j'
      assume "j' < length hs" "(idx + 1) + int j' \<notin> set consumed"
      with Cons.prems(4) [rule_format, of "Suc j'"] 0 show "hs ! j' \<noteq> h"
        by (simp add: add.assoc)
    qed
    from add_columns_untouched [OF later] Cons.prems(2,3) 0 show ?thesis
      by (simp add: set_prop_def)
  next
    case (Suc n)
    have a: "n < length hs" "(idx + 1) + int n \<notin> set consumed" "hs ! n \<noteq> ''__proto__''"
      using Cons.prems(1,2,3) Suc by (simp_all add: add.assoc)
    have b: "\<forall>j'<length hs. n < j' \<and> (idx + 1) + int j' \<notin> set consumed \<longrightarrow> hs ! j' \<noteq> hs ! n"
    proof (intro allI impI)
      fix j'
      assume "j' < length hs" "n < j' \<and> (idx + 1) + int j' \<notin> set consumed"
      with Cons.prems(4) [rule_format, of "Suc j'"] Suc show "hs ! j' \<noteq> hs ! n"
        by (simp add: add.assoc)
    qed
    from Cons.IH [OF a b] Suc show ?thesis
      by (simp add: add.assoc)
  qed
qed

lemma mapCsvToTransactions_nth:
  assumes "r < length data"
  shows "mapCsvToTransactions headers data mapping ! r =
     add_columns headers 0 (data ! r) (consumed_indices headers mapping)
       [''date'' \<mapsto> (if 0 \<le> indexOf headers (dateColumn mapping)
                       then cell (data ! r) (indexOf headers (dateColumn mapping)) else Str []),
        ''amount'' \<mapsto> (if 0 \<le> indexOf headers (amountColumn mapping)
                         then cell (data ! r) (indexOf headers (amountColumn mapping)) else Str []),
        ''description'' \<mapsto> (if 0 \<le> indexOf headers (descriptionColumn mapping)
                              then cell (data ! r) (indexOf headers (descriptionColumn mapping))
                              else Str []),
        ''category'' \<mapsto> (if 0 \<le> optional_index headers (categoryColumn mapping)
                           then cell (data ! r) (optional_index headers (categoryColumn mapping))
                           else Str (or_else (defaultCategory mapping) ''Uncategorized'')),
        ''type'' \<mapsto> (if 0 \<le> optional_index headers (typeColumn mapping)
                       then cell (data ! r) (optional_index headers (typeColumn mapping))
                       else Str (or_else (defaultType mapping) ''expense''))]"
  using assms
  by (simp add: mapCsvToTransactions_def map_row_def consumed_indices_def optional_index_def
      Let_def)

lemma no_extra_untouched:
  assumes "\<not> (\<exists>i. extra_column headers mapping i \<and> headers ! i = k)"
  shows "add_columns headers 0 row (consumed_indices headers mapping) t k = t k"
proof (rule add_columns_untouched)
  show "\<forall>j<length headers. 0 + int j \<notin> set (consumed_indices headers mapping) \<longrightarrow>
      headers ! j \<noteq> k"
    using assms by (auto simp: extra_column_def)
qed

lemma optional_field:
  assumes "length row = length headers"
  shows "(if 0 \<le> optional_index headers col then cell row (optional_index headers col)
          else Str d) =
         (if mapped_column headers col then Str (row ! nat (indexOf headers (or_else col [])))
          else Str d)"
proof (cases "mapped_column headers col")
  case True
  from optional_index_mapped [OF this] assms
  have "cell row (optional_index headers col) = Str (row ! nat (optional_index headers col))"
    by (simp add: cell_def)
  moreover have "optional_index headers col = indexOf headers (or_else col [])"
    using True by (cases col) (auto simp: mapped_column_def optional_index_def truthy_def)
  ultimately show ?thesis
    using True optional_index_mapped [OF True] by simp
next
  case False
  then show ?thesis
    by (simp add: optional_index_unmapped)
qed

lemma category_field:
  assumes "r < length data" "length (data ! r) = length headers"
    "\<not> (\<exists>i. extra_column headers mapping i \<and> headers ! i = ''category'')"
  shows "get_prop (mapCsvToTransactions headers data mapping ! r) ''category'' =
     (if mapped_column headers (categoryColumn mapping)
      then Str (data ! r ! nat (indexOf headers (or_else (categoryColumn mapping) [])))
      else Str (or_else (defaultCategory mapping) ''Uncategorized''))"
  unfolding mapCsvToTransactions_nth [OF assms(1)] get_prop_def no_extra_untouched [OF assms(3)]
  using optional_field [OF assms(2), of "categoryColumn mapping"]
  by simp

lemma type_field:
  assumes "r < length data" "length (data ! r) = length headers"
    "\<not> (\<exists>i. extra_column headers mapping i \<and> headers ! i = ''type'')"
  shows "get_prop (mapCsvToTransactions headers data mapping ! r) ''type'' =
     (if mapped_column headers (typeColumn mapping)
      then Str (data ! r ! nat (indexOf headers (or_else (typeColumn mapping) [])))
      else Str (or_else (defaultType mapping) ''expense''))"
  unfolding mapCsvToTransactions_nth [OF assms(1)] get_prop_def no_extra_untouched [OF assms(3)]
  using optional_field [OF assms(2), of "typeColumn mapping"]
  by simp

lemma extra_field:
  assumes "r < length data" "length (data ! r) = length headers"
    "extra_column headers mapping i" "headers ! i \<noteq> ''__proto__''"
    "\<not> (\<exists>j. i < j \<and> extra_column headers mapping j \<and> headers ! j = headers ! i)"
  shows "get_prop (mapCsvToTransactions headers data mapping ! r) (headers ! i) =
     Str (data ! r ! i)"
proof -
  have i: "i < length headers" "0 + int i \<notin> set (consumed_indices headers mapping)"
    using assms(3) by (simp_all add: extra_column_def)
  have later: "\<forall>j'<length headers. i < j' \<and> 0 + int j' \<notin> set (consumed_indices headers mapping) \<longrightarrow>
      headers ! j' \<noteq> headers ! i"
    using assms(5) by (auto simp: extra_column_def)
  have "cell (data ! r) (0 + int i) = Str (data ! r ! i)"
    using i(1) assms(2) by (simp add: cell_def)
  with add_columns_last [OF i assms(4) later] show ?thesis
    unfolding mapCsvToTransactions_nth [OF assms(1)] get_prop_def by simp
qed

text \<open>
  Claim C7, as amended. For every table whose rows are as long as its headers and every
  mapping, the row mapper produces exactly one candidate per data row. When no column
  that the five fields leave unconsumed is itself named \<open>category\<close>, the category of
  the candidate is the cell of the category column if that column is mapped and present
  among the headers, and otherwise the default category, or \<open>Uncategorized\<close> if the
  default is empty or absent; likewise for the type, with \<open>type\<close>, the default type and
  \<open>expense\<close>. Every header that no field consumes, other than \<open>__proto__\<close>, has its
  row value kept in the candidate under its own name, unless a later unconsumed header
  has the same name. A mapped column resolves to the first header of its name.
\<close>

theorem mapCsvToTransactions_rows:
  "length (mapCsvToTransactions headers data mapping) = length data \<and>
   (\<forall>r<length data. length (data ! r) = length headers \<longrightarrow>
      (\<not> (\<exists>i. extra_column headers mapping i \<and> headers ! i = ''category'') \<longrightarrow>
         get_prop (mapCsvToTransactions headers data mapping ! r) ''category'' =
           (if mapped_column headers (categoryColumn mapping)
            then Str (data ! r ! nat (indexOf headers (or_else (categoryColumn mapping) [])))
            else Str (or_else (defaultCategory mapping) ''Uncategorized''))) \<and>
      (\<not> (\<exists>i. extra_column headers mapping i \<and> headers ! i = ''type'') \<longrightarrow>
         get_prop (mapCsvToTransactions headers data mapping ! r) ''type'' =
           (if mapped_column headers (typeColumn mapping)
            then Str (data ! r ! nat (indexOf headers (or_else (typeColumn mapping) [])))
            else Str (or_else (defaultType mapping) ''expense''))) \<and>
      (\<forall>i. extra_column headers mapping i \<and> headers ! i \<noteq> ''__proto__'' \<and>
           \<not> (\<exists>j. i < j \<and> extra_column headers mapping j \<and> headers ! j = headers ! i) \<longrightarrow>
           get_prop (mapCsvToTransactions headers data mapping ! r) (headers ! i) =
             Str (data ! r ! i))) \<and>
   (\<forall>c\<in>set headers. headers ! nat (indexOf headers c) = c)"
proof (intro conjI allI impI ballI)
  show "length (mapCsvToTransactions headers data mapping) = length data"
    by (simp add: mapCsvToTransactions_def Let_def)
next
  fix r
  assume "r < length data" "length (data ! r) = length headers"
    "\<not> (\<exists>i. extra_column headers mapping i \<and> headers ! i = ''category'')"
  then show "get_prop (mapCsvToTransactions headers data mapping ! r) ''category'' =
           (if mapped_column headers (categoryColumn mapping)
            then Str (data ! r ! nat (indexOf headers (or_else (categoryColumn mapping) [])))
            else Str (or_else (defaultCategory mapping) ''Uncategorized''))"
    by (rule category_field)
next
  fix r
  assume "r < length data" "length (data ! r) = length headers"
    "\<not> (\<exists>i. extra_column headers mapping i \<and> headers ! i = ''type'')"
  then show "get_prop (mapCsvToTransactions headers data mapping ! r) ''type'' =
           (if mapped_column headers (typeColumn mapping)
            then Str (data ! r ! nat (indexOf headers (or_else (typeColumn mapping) [])))
            else Str (or_else (defaultType mapping) ''expense''))"
    by (rule type_field)
next
  fix r i
  assume "r < length data" "length (data ! r) = length headers"
    "extra_column headers mapping i \<and> headers ! i \<noteq> ''__proto__'' \<and>
       \<not> (\<exists>j. i < j \<and> extra_column headers mapping j \<and> headers ! j = headers ! i)"
  then show "get_prop (mapCsvToTransactions headers data mapping ! r) (headers ! i) =
      Str (data ! r ! i)"
    by (intro extra_field) simp_all
next
  fix c
  assume "c \<in> set headers"
  then show "headers ! nat (indexOf headers c) = c"
    by (rule indexOf_present)
qed

theorem mapCsvToTransactions_rows_witness:
  "get_prop (mapCsvToTransactions [''date'', ''amount'', ''description'', ''category'', ''memo'']
       [[''2024-01-05'', ''5'', ''Lunch'', ''Food'', ''with Ana'']]
       \<lparr>dateColumn = ''date'', amountColumn = ''amount'', descriptionColumn = ''description'',
        categoryColumn = Some ''category'', typeColumn = None, dateFormat = ''YYYY-MM-DD'',
        defaultCategory = Some ''Misc'', defaultType = Some ''income''\<rparr> ! 0) ''category'' =
     Str ''Food'' \<and>
   get_prop (mapCsvToTransactions [''date'', ''amount'', ''description'', ''category'', ''memo'']
       [[''2024-01-05'', ''5'', ''Lunch'', ''Food'', ''with Ana'']]
       \<lparr>dateColumn = ''date'', amountColumn = ''amount'', descriptionColumn = ''description'',
        categoryColumn = Some ''category'', typeColumn = None, dateFormat = ''YYYY-MM-DD'',
        defaultCategory = Some ''Misc'', defaultType = Some ''income''\<rparr> ! 0) ''type'' =
     Str ''income'' \<and>
   get_prop (mapCsvToTransactions [''date'', ''amount'', ''description'', ''category'', ''memo'']
       [[''2024-01-05'', ''5'', ''Lunch'', ''Food'', ''with Ana'']]
       \<lparr>dateColumn = ''date'', amountColumn = ''amount'', descriptionColumn = ''description'',
        categoryColumn = Some ''category'', typeColumn = None, dateFormat = ''YYYY-MM-DD'',
        defaultCategory = Some ''Misc'', defaultType = Some ''income''\<rparr> ! 0) ''memo'' =
     Str ''with Ana''"
proof -
  let ?H = "[''date'', ''amount'', ''description'', ''category'', ''memo'']"
  let ?D = "[[''2024-01-05'', ''5'', ''Lunch'', ''Food'', ''with Ana'']]"
  let ?M = "\<lparr>dateColumn = ''date'', amountColumn = ''amount'', descriptionColumn = ''description'',
        categoryColumn = Some ''category'', typeColumn = None, dateFormat = ''YYYY-MM-DD'',
        defaultCategory = Some ''Misc'', defaultType = Some ''income''\<rparr>"
  have ci: "consumed_indices ?H ?M = [0, 1, 2, 3, - 1]"
    by code_simp
  have ex: "extra_column ?H ?M i \<longleftrightarrow> i = 4" for i
    unfolding extra_column_def ci by auto
  have h1: "\<not> (\<exists>i. extra_column ?H ?M i \<and> ?H ! i = ''category'')"
    and h2: "\<not> (\<exists>i. extra_column ?H ?M i \<and> ?H ! i = ''type'')"
    and h3: "extra_column ?H ?M 4 \<and> ?H ! 4 \<noteq> ''__proto__'' \<and>
      \<not> (\<exists>j. 4 < j \<and> extra_column ?H ?M j \<and> ?H ! j = ?H ! 4)"
    by (simp_all add: ex)
  have m: "mapped_column ?H (categoryColumn ?M)" "\<not> mapped_column ?H (typeColumn ?M)"
    by (simp_all add: mapped_column_def)
  have ix: "indexOf ?H ''category'' = 3"
    by code_simp
  have r: "(0::nat) < length ?D" "length (?D ! 0) = length ?H"
    by simp_all
  note t = mapCsvToTransactions_rows [of ?H ?D ?M]
  have a: "get_prop (mapCsvToTransactions ?H ?D ?M ! 0) ''category'' = Str ''Food''"
    using t r h1 m by (simp add: or_else_def ix)
  have b: "get_prop (mapCsvToTransactions ?H ?D ?M ! 0) ''type'' = Str ''income''"
    using t r h2 m by (simp add: or_else_def)
  have "get_prop (mapCsvToTransactions ?H ?D ?M ! 0) (?H ! 4) = Str (?D ! 0 ! 4)"
    using t r h3 by blast
  then have c: "get_prop (mapCsvToTransactions ?H ?D ?M ! 0) ''memo'' = Str ''with Ana''"
    by simp
  show ?thesis
    using a b c by simp
qed

text \<open>
  The claim as first stated fails: the candidate is one object that holds the five
  fields and the additional columns alike. Here the category column is left unmapped and
  the default is \<open>Misc\<close>, yet the candidate's category is the cell of the unconsumed
  column named \<open>category\<close>; and of the two unconsumed columns named \<open>memo\<close> only the
  value of the second is kept.
\<close>

theorem mapCsvToTransactions_counterexample:
  "get_prop (mapCsvToTransactions
       [''date'', ''amount'', ''description'', ''category'', ''memo'', ''memo'']
       [[''2024-01-05'', ''5'', ''Lunch'', ''Food'', ''first'', ''second'']]
       \<lparr>dateColumn = ''date'', amountColumn = ''amount'', descriptionColumn = ''description'',
        categoryColumn = None, typeColumn = None, dateFormat = ''YYYY-MM-DD'',
        defaultCategory = Some ''Misc'', defaultType = Some ''expense''\<rparr> ! 0) ''category'' =
     Str ''Food'' \<and>
   get_prop (mapCsvToTransactions
       [''date'', ''amount'', ''description'', ''category'', ''memo'', ''memo'']
       [[''2024-01-05'', ''5'', ''Lunch'', ''Food'', ''first'', ''second'']]
       \<lparr>dateColumn = ''date'', amountColumn = ''amount'', descriptionColumn = ''description'',
        categoryColumn = None, typeColumn = None, dateFormat = ''YYYY-MM-DD'',
        defaultCategory = Some ''Misc'', defaultType = Some ''expense''\<rparr> ! 0) ''memo'' =
     Str ''second''"
  by code_simp


subsection \<open>Commit\<close>

lemma convert_row_chosen:
  "chosen sel idx \<Longrightarrow>
     convert_row h uid sel t idx = (case to_db h uid t idx of Inl e \<Rightarrow> Inl e | Inr d \<Rightarrow> Inr (Some d))"
  by (auto simp: convert_row_def chosen_def)

lemma convert_row_skipped: "\<not> chosen sel idx \<Longrightarrow> convert_row h uid sel t idx = Inr None"
  by (simp add: convert_row_def chosen_def)

lemma upt_shift: "[idx..<idx + length (t # ts)] = idx # [Suc idx..<Suc idx + length ts]"
proof -
  have "idx < idx + length (t # ts)" by simp
  from upt_conv_Cons [OF this] show ?thesis by simp
qed

lemma convert_rows_batch:
  assumes "convert_rows h uid sel ts idx = Inr rs"
  shows "map Inr (filter_Boolean rs) =
     map (\<lambda>(i, t). to_db h uid t i)
       (filter (\<lambda>(i, t). chosen sel i) (zip [idx..<idx + length ts] ts))"
  using assms
proof (induction ts arbitrary: idx rs)
  case Nil
  then show ?case by (simp add: filter_Boolean_def)
next
  case (Cons t ts)
  from Cons.prems obtain r rs' where
    r: "convert_row h uid sel t idx = Inr r"
    and rs': "convert_rows h uid sel ts (Suc idx) = Inr rs'"
    and rs: "rs = r # rs'"
    by (auto split: sum.splits)
  note ih = Cons.IH [OF rs']
  show ?case
  proof (cases "chosen sel idx")
    case True
    with r obtain d where "to_db h uid t idx = Inr d" "r = Some d"
      by (auto simp: convert_row_chosen split: sum.splits)
    with ih True show ?thesis
      unfolding upt_shift rs by (simp add: filter_Boolean_def)
  next
    case False
    with r have "r = None"
      by (simp add: convert_row_skipped)
    with ih False show ?thesis
      unfolding upt_shift rs by (simp add: filter_Boolean_def)
  qed
qed

lemma convert_rows_succeeds:
  "(\<exists>rs. convert_rows h uid sel ts idx = Inr rs) \<longleftrightarrow>
     (\<forall>p\<in>set (zip [idx..<idx + length ts] ts).
        chosen sel (fst p) \<longrightarrow> (\<exists>d. to_db h uid (snd p) (fst p) = Inr d))"
proof (induction ts arbitrary: idx)
  case Nil
  then show ?case by simp
next
  case (Cons t ts)
  have head: "(\<exists>r. convert_row h uid sel t idx = Inr r) \<longleftrightarrow>
      (chosen sel idx \<longrightarrow> (\<exists>d. to_db h uid t idx = Inr d))"
    by (cases "chosen sel idx")
      (auto simp: convert_row_chosen convert_row_skipped split: sum.splits)
  have "(\<exists>rs. convert_rows h uid sel (t # ts) idx = Inr rs) \<longleftrightarrow>
      (\<exists>r. convert_row h uid sel t idx = Inr r) \<and>
      (\<exists>rs. convert_rows h uid sel ts (Suc idx) = Inr rs)"
    by (auto split: sum.splits)
  then show ?case
    unfolding upt_shift head Cons.IH by simp
qed

lemma importTransactions_submitted:
  assumes "auth_user h = Some uid"
  shows "snd (importTransactions h s) =
     (if parsedData s = [] then None
      else (case convert_rows h uid (selectedTransactions s) (parsedData s) 0 of
              Inl e \<Rightarrow> None
            | Inr rs \<Rightarrow> Some (filter_Boolean rs)))"
  using assms
  by (simp add: importTransactions_def Let_def split: sum.splits option.splits)

lemma importTransactions_unauthenticated:
  "auth_user h = None \<Longrightarrow> snd (importTransactions h s) = None"
  by (simp add: importTransactions_def Let_def)

lemma importTransactions_batch:
  assumes "auth_user h = Some uid" "importTransactions h s = (s', Some batch)"
  shows "map Inr batch =
     map (\<lambda>(i, t). to_db h uid t i)
       (filter (\<lambda>(i, t). chosen (selectedTransactions s) i)
          (zip [0..<length (parsedData s)] (parsedData s)))"
proof -
  from assms(2) have "snd (importTransactions h s) = Some batch"
    by simp
  then obtain rs where
    rs: "convert_rows h uid (selectedTransactions s) (parsedData s) 0 = Inr rs"
    and b: "batch = filter_Boolean rs"
    unfolding importTransactions_submitted [OF assms(1)]
    by (auto split: if_splits sum.splits)
  from convert_rows_batch [OF rs] show ?thesis
    by (simp add: b)
qed

lemma importTransactions_reaches:
  assumes "auth_user h = Some uid"
  shows "(\<exists>s' batch. importTransactions h s = (s', Some batch)) \<longleftrightarrow>
     parsedData s \<noteq> [] \<and>
     (\<forall>p\<in>set (zip [0..<length (parsedData s)] (parsedData s)).
        chosen (selectedTransactions s) (fst p) \<longrightarrow> (\<exists>d. to_db h uid (snd p) (fst p) = Inr d))"
proof -
  have "(\<exists>s' batch. importTransactions h s = (s', Some batch)) \<longleftrightarrow>
      (\<exists>batch. snd (importTransactions h s) = Some batch)"
    by (metis prod.collapse snd_conv)
  also have "\<dots> \<longleftrightarrow> parsedData s \<noteq> [] \<and>
      (\<exists>rs. convert_rows h uid (selectedTransactions s) (parsedData s) 0 = Inr rs)"
    unfolding importTransactions_submitted [OF assms]
    by (auto split: sum.splits)
  finally show ?thesis
    using convert_rows_succeeds [of h uid "selectedTransactions s" "parsedData s" 0]
    by simp
qed

lemma chosen_iff: "chosen sel i \<longleftrightarrow> sel = [] \<or> map_of sel i = Some True"
  by (auto simp: chosen_def selected_def split: option.splits)

text \<open>
  Claim C8. With a signed-in user, the batch that \<open>importTransactions\<close> hands to the
  insert is, in order, the conversion of exactly the candidates that are chosen: every
  candidate when the selection is empty, and otherwise those whose index has a true
  entry, an index with a false entry being left out like an index with no entry. The
  insert is reached exactly when there is a candidate at all and every chosen candidate
  converts.
\<close>

theorem importTransactions_selection:
  assumes "auth_user h = Some uid"
  shows "(importTransactions h s = (s', Some batch) \<longrightarrow>
       map Inr batch =
         map (\<lambda>(i, t). to_db h uid t i)
           (filter (\<lambda>(i, t). chosen (selectedTransactions s) i)
              (zip [0..<length (parsedData s)] (parsedData s)))) \<and>
     ((\<exists>s' batch. importTransactions h s = (s', Some batch)) \<longleftrightarrow>
        parsedData s \<noteq> [] \<and>
        (\<forall>p\<in>set (zip [0..<length (parsedData s)] (parsedData s)).
           chosen (selectedTransactions s) (fst p) \<longrightarrow>
           (\<exists>d. to_db h uid (snd p) (fst p) = Inr d))) \<and>
     (chosen sel i \<longleftrightarrow> sel = [] \<or> map_of sel i = Some True)"
  using importTransactions_batch [OF assms] importTransactions_reaches [OF assms] chosen_iff
  by blast

lemma to_db_amount:
  assumes "to_db h uid t idx = Inr d"
  shows "\<exists>a. get_prop t ''amount'' = Str a \<and>
     db_amount d = (if get_prop t ''type'' = Str ''expense''
                    then negate (Math_abs (parse_amount a))
                    else Math_abs (parse_amount a)) \<and>
     db_type d = get_prop t ''type''"
  using assms
  by (cases "get_prop t ''amount''")
    (auto simp: to_db_def Let_def split: sum.splits)

lemma batch_member:
  assumes "auth_user h = Some uid" "importTransactions h s = (s', Some batch)" "d \<in> set batch"
  shows "\<exists>i<length (parsedData s). chosen (selectedTransactions s) i \<and>
     to_db h uid (parsedData s ! i) i = Inr d"
proof -
  from assms(3) have "(Inr d :: error + DbTransaction) \<in> set (map Inr batch)"
    by simp
  then have "Inr d \<in> set (map (\<lambda>(i, t). to_db h uid t i)
      (filter (\<lambda>(i, t). chosen (selectedTransactions s) i)
         (zip [0..<length (parsedData s)] (parsedData s))))"
    unfolding importTransactions_batch [OF assms(1,2)] .
  then obtain i t where it: "(i, t) \<in> set (zip [0..<length (parsedData s)] (parsedData s))"
    and c: "chosen (selectedTransactions s) i" and d: "to_db h uid t i = Inr d"
    by auto
  from it obtain n where "n < length (parsedData s)" "[0..<length (parsedData s)] ! n = i"
    "parsedData s ! n = t"
    by (auto simp: in_set_zip)
  then have "i < length (parsedData s)" "parsedData s ! i = t"
    by simp_all
  with c d show ?thesis
    by blast
qed


text \<open>
  Claim C10, as amended. When a type column is mapped and present among the headers, and
  no column that the five fields leave unconsumed is itself named \<open>type\<close>, the
  candidate's type is the cell of the mapped column as it stands, whatever its text. At
  commit a candidate whose type is anything but the string \<open>expense\<close> keeps its type
  and gets the absolute value of its parsed amount, which is not negative.
\<close>

theorem type_passes_unchecked:
  "(r < length data \<and> length (data ! r) = length headers \<and>
    typeColumn mapping = Some c \<and> c \<noteq> [] \<and> c \<in> set headers \<and>
    \<not> (\<exists>i. extra_column headers mapping i \<and> headers ! i = ''type'') \<longrightarrow>
      get_prop (mapCsvToTransactions headers data mapping ! r) ''type'' =
        Str (data ! r ! nat (indexOf headers c)) \<and>
      headers ! nat (indexOf headers c) = c) \<and>
   (to_db h uid t idx = Inr d \<and> get_prop t ''type'' \<noteq> Str ''expense'' \<longrightarrow>
      db_type d = get_prop t ''type'' \<and>
      (\<exists>a. get_prop t ''amount'' = Str a \<and> db_amount d = Math_abs (parse_amount a) \<and>
           (\<forall>q. parse_amount a = Num q \<longrightarrow> db_amount d = Num \<bar>q\<bar> \<and> 0 \<le> \<bar>q\<bar>)))"
proof (intro conjI impI)
  assume a: "r < length data \<and> length (data ! r) = length headers \<and>
    typeColumn mapping = Some c \<and> c \<noteq> [] \<and> c \<in> set headers \<and>
    \<not> (\<exists>i. extra_column headers mapping i \<and> headers ! i = ''type'')"
  then have m: "mapped_column headers (typeColumn mapping)"
    by (simp add: mapped_column_def)
  from a type_field [of r data headers mapping] m
  show "get_prop (mapCsvToTransactions headers data mapping ! r) ''type'' =
      Str (data ! r ! nat (indexOf headers c))"
    by (simp add: or_else_def)
  from a show "headers ! nat (indexOf headers c) = c"
    by (simp add: indexOf_present)
next
  assume a: "to_db h uid t idx = Inr d \<and> get_prop t ''type'' \<noteq> Str ''expense''"
  with to_db_amount [of h uid t idx d] show "db_type d = get_prop t ''type''"
    by blast
  from a to_db_amount [of h uid t idx d] obtain x where
    "get_prop t ''amount'' = Str x" "db_amount d = Math_abs (parse_amount x)"
    by auto
  then show "\<exists>a. get_prop t ''amount'' = Str a \<and> db_amount d = Math_abs (parse_amount a) \<and>
      (\<forall>q. parse_amount a = Num q \<longrightarrow> db_amount d = Num \<bar>q\<bar> \<and> 0 \<le> \<bar>q\<bar>)"
    by (auto simp: Math_abs_def)
qed

lemmas char_class_defs = is_digit_def is_whitespace_def is_amount_char_def is_date_char_def
  is_date_separator_def

lemma parse_amount_examples:
  "parse_amount ''50'' = Num 50" "parse_amount ''-2000'' = Num (- 2000)"
  "parse_amount ''-12.50'' = Num (- (25 / 2))" "parse_amount ''5'' = Num 5"
  by (simp_all add: parse_amount_def parseFloat_def char_class_defs nat_of_digits_def
      digit_val_def)

lemma iso_date_examples:
  "date_toISOString h (Str ''2024-01-05'') = Inr ''2024-01-05T00:00:00.000Z''"
  "date_toISOString h (Str ''2024-01-06'') = Inr ''2024-01-06T00:00:00.000Z''"
  "date_toISOString h (Str ''2024-01-07'') = Inr ''2024-01-07T00:00:00.000Z''"
  by (simp_all add: date_toISOString_def iso_date_def char_class_defs nat_of_digits_def
      digit_val_def days_in_month_def)

lemma iso_date_time_example:
  "date_toISOString h (Str ''0001-01-01T00:00Z'') = Inr ''0001-01-01T00:00:00.000Z''"
  by (simp add: date_toISOString_def iso_date_def iso_utc_time_def char_class_defs
      nat_of_digits_def digit_val_def days_in_month_def)

lemma string_of_nat_examples:
  "string_of_nat 0 = ''0''" "string_of_nat (Suc 0) = ''1''" "string_of_nat (Suc (Suc 0)) = ''2''"
  by (simp_all add: string_of_nat.simps)

lemma example_fields:
  "get_prop example_expense ''type'' = Str ''expense''"
  "get_prop example_expense ''amount'' = Str ''50''"
  "get_prop example_income ''type'' = Str ''income''"
  "get_prop example_income ''amount'' = Str ''-2000''"
  "get_prop example_credit ''type'' = Str ''Credit''"
  "get_prop example_credit ''amount'' = Str ''-12.50''"
  by (simp_all add: example_expense_def example_income_def example_credit_def get_prop_def)

lemma to_db_examples:
  "to_db example_host ''user-1'' example_expense 0 =
     Inr \<lparr>db_id = ''id-0'', db_transaction_date = ''2024-01-05T00:00:00.000Z'',
          db_description = Str ''Coffee'', db_amount = Num (- 50),
          db_category = Str ''Uncategorized'', db_type = Str ''expense'',
          db_user_id = ''user-1'', db_created_at = ''2025-01-01T00:00:00.000Z''\<rparr>"
  "to_db example_host ''user-1'' example_income (Suc 0) =
     Inr \<lparr>db_id = ''id-1'', db_transaction_date = ''2024-01-06T00:00:00.000Z'',
          db_description = Str ''Salary'', db_amount = Num 2000,
          db_category = Str ''Uncategorized'', db_type = Str ''income'',
          db_user_id = ''user-1'', db_created_at = ''2025-01-01T00:00:00.000Z''\<rparr>"
  "to_db example_host ''user-1'' example_credit (Suc (Suc 0)) =
     Inr \<lparr>db_id = ''id-2'', db_transaction_date = ''2024-01-07T00:00:00.000Z'',
          db_description = Str ''Refund'', db_amount = Num (25 / 2),
          db_category = Str ''Uncategorized'', db_type = Str ''Credit'',
          db_user_id = ''user-1'', db_created_at = ''2025-01-01T00:00:00.000Z''\<rparr>"
  by (simp_all add: example_expense_def example_income_def example_credit_def to_db_def
      get_prop_def parse_amount_examples iso_date_examples Math_abs_def negate_def
      example_host_def string_of_nat_examples)







lemma example_batches:
  "snd (importTransactions example_host example_preview) =
     Some [\<lparr>db_id = ''id-0'', db_transaction_date = ''2024-01-05T00:00:00.000Z'',
            db_description = Str ''Coffee'', db_amount = Num (- 50),
            db_category = Str ''Uncategorized'', db_type = Str ''expense'',
            db_user_id = ''user-1'', db_created_at = ''2025-01-01T00:00:00.000Z''\<rparr>,
           \<lparr>db_id = ''id-1'', db_transaction_date = ''2024-01-06T00:00:00.000Z'',
            db_description = Str ''Salary'', db_amount = Num 2000,
            db_category = Str ''Uncategorized'', db_type = Str ''income'',
            db_user_id = ''user-1'', db_created_at = ''2025-01-01T00:00:00.000Z''\<rparr>,
           \<lparr>db_id = ''id-2'', db_transaction_date = ''2024-01-07T00:00:00.000Z'',
            db_description = Str ''Refund'', db_amount = Num (25 / 2),
            db_category = Str ''Uncategorized'', db_type = Str ''Credit'',
            db_user_id = ''user-1'', db_created_at = ''2025-01-01T00:00:00.000Z''\<rparr>]"
  "snd (importTransactions example_host (toggle_row 1 True (toggle_row 0 False example_preview))) =
     Some [\<lparr>db_id = ''id-1'', db_transaction_date = ''2024-01-06T00:00:00.000Z'',
            db_description = Str ''Salary'', db_amount = Num 2000,
            db_category = Str ''Uncategorized'', db_type = Str ''income'',
            db_user_id = ''user-1'', db_created_at = ''2025-01-01T00:00:00.000Z''\<rparr>]"
proof -
  have u: "auth_user example_host = Some ''user-1''"
    by (simp add: example_host_def)
  show "snd (importTransactions example_host example_preview) =
     Some [\<lparr>db_id = ''id-0'', db_transaction_date = ''2024-01-05T00:00:00.000Z'',
            db_description = Str ''Coffee'', db_amount = Num (- 50),
            db_category = Str ''Uncategorized'', db_type = Str ''expense'',
            db_user_id = ''user-1'', db_created_at = ''2025-01-01T00:00:00.000Z''\<rparr>,
           \<lparr>db_id = ''id-1'', db_transaction_date = ''2024-01-06T00:00:00.000Z'',
            db_description = Str ''Salary'', db_amount = Num 2000,
            db_category = Str ''Uncategorized'', db_type = Str ''income'',
            db_user_id = ''user-1'', db_created_at = ''2025-01-01T00:00:00.000Z''\<rparr>,
           \<lparr>db_id = ''id-2'', db_transaction_date = ''2024-01-07T00:00:00.000Z'',
            db_description = Str ''Refund'', db_amount = Num (25 / 2),
            db_category = Str ''Uncategorized'', db_type = Str ''Credit'',
            db_user_id = ''user-1'', db_created_at = ''2025-01-01T00:00:00.000Z''\<rparr>]"
    unfolding importTransactions_submitted [OF u]
    by (simp add: example_preview_def initial_session_def convert_row_def selected_def
        to_db_examples filter_Boolean_def)
  show "snd (importTransactions example_host (toggle_row 1 True (toggle_row 0 False example_preview))) =
     Some [\<lparr>db_id = ''id-1'', db_transaction_date = ''2024-01-06T00:00:00.000Z'',
            db_description = Str ''Salary'', db_amount = Num 2000,
            db_category = Str ''Uncategorized'', db_type = Str ''income'',
            db_user_id = ''user-1'', db_created_at = ''2025-01-01T00:00:00.000Z''\<rparr>]"
    unfolding importTransactions_submitted [OF u]
    by (simp add: example_preview_def initial_session_def toggle_row_def convert_row_def
        selected_def to_db_examples filter_Boolean_def)
qed

theorem importTransactions_selection_witness:
  "snd (importTransactions example_host (toggle_row 1 True (toggle_row 0 False example_preview))) =
     Some [\<lparr>db_id = ''id-1'', db_transaction_date = ''2024-01-06T00:00:00.000Z'',
            db_description = Str ''Salary'', db_amount = Num 2000,
            db_category = Str ''Uncategorized'', db_type = Str ''income'',
            db_user_id = ''user-1'', db_created_at = ''2025-01-01T00:00:00.000Z''\<rparr>] \<and>
   map db_id (the (snd (importTransactions example_host example_preview))) =
     [''id-0'', ''id-1'', ''id-2''] \<and>
   \<not> chosen [(1, True), (0, False)] 0 \<and> chosen [(1, True), (0, False)] 1 \<and>
   \<not> chosen [(1, True), (0, False)] 2 \<and> chosen [] 2"
proof -
  have u: "auth_user example_host = Some ''user-1''"
    by (simp add: example_host_def)
  note t = importTransactions_selection [OF u]
  have c: "\<not> chosen [(1, True), (0, False)] 0" "chosen [(1, True), (0, False)] 1"
    "\<not> chosen [(1, True), (0, False)] 2" "chosen [] 2"
    using t [THEN conjunct2, THEN conjunct2] by simp_all
  have "\<exists>s' batch. importTransactions example_host example_preview = (s', Some batch)"
    using t [of example_preview, THEN conjunct2, THEN conjunct1]
    by (auto simp: example_preview_def initial_session_def chosen_def upt_conv_Cons
        to_db_examples)
  then obtain s' batch where
    b: "importTransactions example_host example_preview = (s', Some batch)"
    by blast
  with example_batches(1) have "map db_id batch = [''id-0'', ''id-1'', ''id-2'']"
    by simp
  with b have m: "map db_id (the (snd (importTransactions example_host example_preview))) =
      [''id-0'', ''id-1'', ''id-2'']"
    by simp
  show ?thesis
    using example_batches(2) m c by simp
qed

theorem type_passes_unchecked_witness:
  "get_prop
     (mapCsvToTransactions [''date'', ''description'', ''amount'', ''type'']
        [[''2024-01-07'', ''Refund'', ''-12.50'', ''Credit'']]
        \<lparr>dateColumn = ''date'', amountColumn = ''amount'', descriptionColumn = ''description'',
         categoryColumn = None, typeColumn = Some ''type'', dateFormat = ''YYYY-MM-DD'',
         defaultCategory = Some ''Uncategorized'', defaultType = Some ''expense''\<rparr> ! 0)
     ''type'' = Str ''Credit'' \<and>
   to_db example_host ''user-1'' example_credit (Suc (Suc 0)) =
     Inr \<lparr>db_id = ''id-2'', db_transaction_date = ''2024-01-07T00:00:00.000Z'',
          db_description = Str ''Refund'', db_amount = Num (25 / 2),
          db_category = Str ''Uncategorized'', db_type = Str ''Credit'',
          db_user_id = ''user-1'', db_created_at = ''2025-01-01T00:00:00.000Z''\<rparr> \<and>
   get_prop example_credit ''type'' = Str ''Credit'' \<and>
   parse_amount ''-12.50'' = Num (- (25 / 2))"
proof -
  let ?H = "[''date'', ''description'', ''amount'', ''type'']"
  let ?D = "[[''2024-01-07'', ''Refund'', ''-12.50'', ''Credit'']]"
  let ?M = "\<lparr>dateColumn = ''date'', amountColumn = ''amount'', descriptionColumn = ''description'',
        categoryColumn = None, typeColumn = Some ''type'', dateFormat = ''YYYY-MM-DD'',
        defaultCategory = Some ''Uncategorized'', defaultType = Some ''expense''\<rparr>"
  let ?d2 = "\<lparr>db_id = ''id-2'', db_transaction_date = ''2024-01-07T00:00:00.000Z'',
          db_description = Str ''Refund'', db_amount = Num (25 / 2),
          db_category = Str ''Uncategorized'', db_type = Str ''Credit'',
          db_user_id = ''user-1'', db_created_at = ''2025-01-01T00:00:00.000Z''\<rparr>"
  have ci: "consumed_indices ?H ?M = [0, 2, 1, - 1, 3]"
    by (simp add: consumed_indices_def optional_index_def indexOf_def truthy_def or_else_def)
  have ex: "\<not> extra_column ?H ?M i" for i
    unfolding extra_column_def ci by auto
  have ix: "indexOf ?H ''type'' = 3"
    by (simp add: indexOf_def)
  have h: "(0::nat) < length ?D \<and> length (?D ! 0) = length ?H \<and>
      typeColumn ?M = Some ''type'' \<and> ''type'' \<noteq> [] \<and> ''type'' \<in> set ?H \<and>
      \<not> (\<exists>i. extra_column ?H ?M i \<and> ?H ! i = ''type'')"
    using ex by simp
  from type_passes_unchecked [of 0 ?D ?H ?M "''type''", THEN conjunct1, rule_format, OF h]
  have a: "get_prop (mapCsvToTransactions ?H ?D ?M ! 0) ''type'' = Str ''Credit''"
    by (simp add: ix)
  have g: "to_db example_host ''user-1'' example_credit (Suc (Suc 0)) = Inr ?d2 \<and>
      get_prop example_credit ''type'' \<noteq> Str ''expense''"
    by (simp add: to_db_examples example_fields)
  from type_passes_unchecked [of _ _ _ _ _ example_host "''user-1''" example_credit
      "Suc (Suc 0)" ?d2, THEN conjunct2, rule_format, OF g]
  have "db_type ?d2 = get_prop example_credit ''type''"
    by blast
  then have b: "get_prop example_credit ''type'' = Str ''Credit''"
    by simp
  show ?thesis
    using a b to_db_examples(3) parse_amount_examples(3) by simp
qed

text \<open>
  The claim as first stated fails where an unconsumed column is named \<open>type\<close>: the
  type column is mapped to \<open>Kind\<close>, whose cell is \<open>debit\<close>, and the candidate's type
  is the cell \<open>expense\<close> of the column named \<open>type\<close>.
\<close>

theorem type_passes_unchecked_counterexample:
  "get_prop (mapCsvToTransactions [''date'', ''amount'', ''description'', ''Kind'', ''type'']
       [[''2024-01-05'', ''5'', ''Lunch'', ''debit'', ''expense'']]
       \<lparr>dateColumn = ''date'', amountColumn = ''amount'', descriptionColumn = ''description'',
        categoryColumn = None, typeColumn = Some ''Kind'', dateFormat = ''YYYY-MM-DD'',
        defaultCategory = Some ''Uncategorized'', defaultType = Some ''expense''\<rparr> ! 0) ''type'' =
     Str ''expense'' \<and>
   [''2024-01-05'', ''5'', ''Lunch'', ''debit'', ''expense''] !
     nat (indexOf [''date'', ''amount'', ''description'', ''Kind'', ''type''] ''Kind'') = ''debit''"
  by (simp add: mapCsvToTransactions_def map_row_def indexOf_def truthy_def or_else_def cell_def
      set_prop_def get_prop_def Let_def)


subsection \<open>Import session\<close>

lemma indexOf_from_upper: "indexOf_from xs x i < i + int (length xs) \<or> indexOf_from xs x i = - 1"
proof (induction xs arbitrary: i)
  case Nil
  then show ?case by simp
next
  case (Cons y ys)
  from Cons.IH [of "i + 1"] show ?case
    by auto
qed

lemma indexOf_upper: "indexOf xs x < int (length xs)"
  using indexOf_from_upper [of xs x 0] by (auto simp: indexOf_def)

lemma cell_Str:
  "0 \<le> idx \<Longrightarrow> idx < int (length row) \<Longrightarrow> \<exists>s. cell row idx = Str s"
  by (simp add: cell_def)

lemma add_columns_Str:
  assumes "\<exists>s. t k = Some (Str s)" "0 \<le> idx" "idx + int (length hs) \<le> int (length row)"
  shows "\<exists>s. add_columns hs idx row consumed t k = Some (Str s)"
  using assms
proof (induction hs arbitrary: idx t)
  case Nil
  then show ?case by simp
next
  case (Cons h hs)
  from Cons.prems(2,3) have "\<exists>s. cell row idx = Str s"
    by (intro cell_Str) simp_all
  with Cons.prems(1)
  have "\<exists>s. (if idx \<notin> set consumed then set_prop t h (cell row idx) else t) k = Some (Str s)"
    by (auto simp: set_prop_def)
  moreover have "0 \<le> idx + 1" "idx + 1 + int (length hs) \<le> int (length row)"
    using Cons.prems(2,3) by simp_all
  ultimately show ?case
    using Cons.IH [of _ "idx + 1"] by simp
qed

lemma field_Str:
  assumes "length row = length headers"
  shows "\<exists>s. (if 0 \<le> indexOf headers c then cell row (indexOf headers c) else Str []) = Str s"
  using assms indexOf_upper [of headers c] by (simp add: cell_def)

lemma map_row_well_typed:
  assumes "length row = length headers"
  shows "well_typed
     (map_row headers mapping (indexOf headers (dateColumn mapping))
        (indexOf headers (amountColumn mapping)) (indexOf headers (descriptionColumn mapping))
        categoryIdx typeIdx row)"
proof -
  define dateIdx where "dateIdx = indexOf headers (dateColumn mapping)"
  define amountIdx where "amountIdx = indexOf headers (amountColumn mapping)"
  define descriptionIdx where "descriptionIdx = indexOf headers (descriptionColumn mapping)"
  define base :: CsvTransaction where
    "base = [''date'' \<mapsto> (if 0 \<le> dateIdx then cell row dateIdx else Str []),
             ''amount'' \<mapsto> (if 0 \<le> amountIdx then cell row amountIdx else Str []),
             ''description'' \<mapsto> (if 0 \<le> descriptionIdx then cell row descriptionIdx else Str []),
             ''category'' \<mapsto> (if 0 \<le> categoryIdx then cell row categoryIdx
                                else Str (or_else (defaultCategory mapping) ''Uncategorized'')),
             ''type'' \<mapsto> (if 0 \<le> typeIdx then cell row typeIdx
                            else Str (or_else (defaultType mapping) ''expense''))]"
  define consumed where "consumed = [dateIdx, amountIdx, descriptionIdx, categoryIdx, typeIdx]"
  have b: "(0::int) \<le> 0" "0 + int (length headers) \<le> int (length row)"
    using assms by simp_all
  have "\<exists>s. base ''date'' = Some (Str s)"
    using field_Str [OF assms, of "dateColumn mapping"] by (auto simp: base_def dateIdx_def)
  from add_columns_Str [where t = base and k = "''date''" and consumed = consumed, OF this b]
  have d: "get_prop (add_columns headers 0 row consumed base) ''date'' \<noteq> Undefined"
    by (auto simp: get_prop_def)
  have "\<exists>s. base ''amount'' = Some (Str s)"
    using field_Str [OF assms, of "amountColumn mapping"] by (auto simp: base_def amountIdx_def)
  from add_columns_Str [where t = base and k = "''amount''" and consumed = consumed, OF this b]
  have a: "get_prop (add_columns headers 0 row consumed base) ''amount'' \<noteq> Undefined"
    by (auto simp: get_prop_def)
  have "\<exists>s. base ''description'' = Some (Str s)"
    using field_Str [OF assms, of "descriptionColumn mapping"]
    by (auto simp: base_def descriptionIdx_def)
  from add_columns_Str [where t = base and k = "''description''" and consumed = consumed, OF this b]
  have e: "get_prop (add_columns headers 0 row consumed base) ''description'' \<noteq> Undefined"
    by (auto simp: get_prop_def)
  have "map_row headers mapping dateIdx amountIdx descriptionIdx categoryIdx typeIdx row =
      add_columns headers 0 row consumed base"
    by (simp add: map_row_def base_def consumed_def)
  with d a e show ?thesis
    by (simp add: well_typed_def dateIdx_def amountIdx_def descriptionIdx_def)
qed

lemma mapCsvToTransactions_well_typed:
  assumes "\<forall>row\<in>set data. length row = length headers"
  shows "\<forall>t\<in>set (mapCsvToTransactions headers data mapping). well_typed t"
  using assms by (auto simp: mapCsvToTransactions_def Let_def map_row_well_typed)

lemma parseRawCSV_row_lengths:
  assumes "parseRawCSV text = Inr (headers, data)"
  shows "\<forall>row\<in>set data. length row = length headers"
  using assms
  by (auto simp: parseRawCSV_def Let_def collect_rows_filter split: if_splits)

lemma processFile_no_file: "chosen_file s = None \<Longrightarrow> processFile s = s"
  by (simp add: processFile_def)

lemma processFile_unread:
  assumes "chosen_file s = Some f" "file_text f = Inl e"
  shows "parsedData (processFile s) = parsedData s" "csvHeaders (processFile s) = csvHeaders s"
    "csvData (processFile s) = csvData s" "uploadStatus (processFile s) = Failed"
  using assms by (simp_all add: processFile_def process_failed_def Let_def)

lemma processFile_untokenized:
  assumes "chosen_file s = Some f" "file_text f = Inr text" "parseRawCSV text = Inl e"
  shows "parsedData (processFile s) = parsedData s" "csvHeaders (processFile s) = csvHeaders s"
    "csvData (processFile s) = csvData s" "uploadStatus (processFile s) = Failed"
  using assms by (simp_all add: processFile_def process_failed_def Let_def)

lemma processFile_table:
  assumes "chosen_file s = Some f" "file_text f = Inr text"
    "parseRawCSV text = Inr (headers, data)"
  shows "csvHeaders (processFile s) = headers" "csvData (processFile s) = data"
  using assms
  by (simp_all add: processFile_def process_failed_def Let_def
      split: option.splits sum.splits)

lemma processFile_advanced:
  assumes "chosen_file s = Some f" "file_text f = Inr text"
    "parseRawCSV text = Inr (headers, data)" "uploadMode s = Advanced"
  shows "uploadStatus (processFile s) = Mapping" "parsedData (processFile s) = parsedData s"
  using assms by (simp_all add: processFile_def Let_def)

lemma processFile_no_template:
  assumes "chosen_file s = Some f" "file_text f = Inr text"
    "parseRawCSV text = Inr (headers, data)" "uploadMode s = Standard"
    "find (\<lambda>t. template_id t = selectedTemplate s) bankTemplates = None"
  shows "uploadStatus (processFile s) = Failed" "parsedData (processFile s) = parsedData s"
  using assms by (simp_all add: processFile_def process_failed_def Let_def)

lemma processFile_thrown:
  assumes "chosen_file s = Some f" "file_text f = Inr text"
    "parseRawCSV text = Inr (headers, data)" "uploadMode s = Standard"
    "find (\<lambda>t. template_id t = selectedTemplate s) bankTemplates = Some template"
    "validateTransactions
       (mapCsvToTransactions headers data (template_mapping template headers))
       (template_dateFormat template) = Inl e"
  shows "uploadStatus (processFile s) = Failed" "parsedData (processFile s) = parsedData s"
  using assms by (simp_all add: processFile_def process_failed_def Let_def)

lemma processFile_gate:
  assumes "chosen_file s = Some f" "file_text f = Inr text"
    "parseRawCSV text = Inr (headers, data)" "uploadMode s = Standard"
    "find (\<lambda>t. template_id t = selectedTemplate s) bankTemplates = Some template"
    "validateTransactions
       (mapCsvToTransactions headers data (template_mapping template headers))
       (template_dateFormat template) = Inr errors"
  shows "validationErrors (processFile s) = errors"
    "uploadStatus (processFile s) = (if errors = [] then Preview else Failed)"
    "parsedData (processFile s) =
       (if errors = [] then mapCsvToTransactions headers data (template_mapping template headers)
        else parsedData s)"
  using assms by (simp_all add: processFile_def Let_def)

lemma onSubmitMapping_gate:
  assumes "validateTransactions (mapCsvToTransactions (csvHeaders s) (csvData s) vals)
       (dateFormat vals) = Inr errors"
  shows "validationErrors (onSubmitMapping vals s) = errors"
    "uploadStatus (onSubmitMapping vals s) = (if errors = [] then Preview else Failed)"
    "parsedData (onSubmitMapping vals s) =
       (if errors = [] then mapCsvToTransactions (csvHeaders s) (csvData s) vals
        else parsedData s)"
    "csvHeaders (onSubmitMapping vals s) = csvHeaders s"
    "csvData (onSubmitMapping vals s) = csvData s"
  using assms by (simp_all add: onSubmitMapping_def Let_def)

lemma onSubmitMapping_thrown:
  assumes "validateTransactions (mapCsvToTransactions (csvHeaders s) (csvData s) vals)
       (dateFormat vals) = Inl e"
  shows "uploadStatus (onSubmitMapping vals s) = Failed"
    "parsedData (onSubmitMapping vals s) = parsedData s"
    "csvHeaders (onSubmitMapping vals s) = csvHeaders s"
    "csvData (onSubmitMapping vals s) = csvData s"
  using assms by (simp_all add: onSubmitMapping_def Let_def)

lemma validate_nothing: "validateTransactions [] fmt = Inr []"
  by (simp add: validateTransactions_def)

lemma table_validates:
  assumes "\<forall>row\<in>set data. length row = length headers"
  shows "\<exists>errors. validateTransactions (mapCsvToTransactions headers data mapping) fmt = Inr errors"
proof -
  have "\<forall>t\<in>set (mapCsvToTransactions headers data mapping). well_typed t"
    using assms by (rule mapCsvToTransactions_well_typed)
  from validate_rows_issues [OF this, of fmt 0 "[]"] show ?thesis
    by (simp add: validateTransactions_def)
qed

lemma invariant_initial: "session_invariant initial_session"
  by (simp add: session_invariant_def initial_session_def validate_nothing)

lemma invariant_handleFile:
  assumes "session_invariant s"
  shows "session_invariant (handleFile f s)"
  using assms by (auto simp: session_invariant_def handleFile_def validate_nothing)

lemma invariant_processFile:
  assumes "session_invariant s"
  shows "session_invariant (processFile s)"
proof (cases "chosen_file s")
  case None
  with assms show ?thesis
    by (simp add: processFile_no_file)
next
  case (Some f)
  note f = this
  show ?thesis
  proof (cases "file_text f")
    case (Inl e)
    with assms f show ?thesis
      by (simp add: session_invariant_def processFile_unread)
  next
    case (Inr content)
    note content = this
    show ?thesis
    proof (cases "parseRawCSV content")
      case (Inl e)
      with assms f content show ?thesis
        by (simp add: session_invariant_def processFile_untokenized)
    next
      case (Inr table)
      then obtain headers data where table: "parseRawCSV content = Inr (headers, data)"
        by (cases table) simp
      have rows: "\<forall>row\<in>set (csvData (processFile s)). length row = length (csvHeaders (processFile s))"
        using parseRawCSV_row_lengths [OF table]
        by (simp add: processFile_table [OF f content table])
      have "\<exists>fmt. validateTransactions (parsedData (processFile s)) fmt = Inr []"
      proof (cases "uploadMode s")
        case Advanced
        with assms show ?thesis
          by (simp add: session_invariant_def processFile_advanced [OF f content table])
      next
        case Standard
        note mode = this
        show ?thesis
        proof (cases "find (\<lambda>t. template_id t = selectedTemplate s) bankTemplates")
          case None
          with assms show ?thesis
            by (simp add: session_invariant_def processFile_no_template [OF f content table mode])
        next
          case (Some template)
          note template = this
          show ?thesis
          proof (cases "validateTransactions
              (mapCsvToTransactions headers data (template_mapping template headers))
              (template_dateFormat template)")
            case (Inl e)
            with assms show ?thesis
              by (simp add: session_invariant_def
                  processFile_thrown [OF f content table mode template])
          next
            case (Inr errors)
            from processFile_gate(3) [OF f content table mode template this] Inr assms
            show ?thesis
              by (cases "errors = []") (auto simp: session_invariant_def)
          qed
        qed
      qed
      with rows show ?thesis
        by (simp add: session_invariant_def)
    qed
  qed
qed

lemma invariant_onSubmitMapping:
  assumes "session_invariant s"
  shows "session_invariant (onSubmitMapping vals s)"
proof (cases "validateTransactions (mapCsvToTransactions (csvHeaders s) (csvData s) vals)
    (dateFormat vals)")
  case (Inl e)
  with assms show ?thesis
    by (simp add: session_invariant_def onSubmitMapping_thrown)
next
  case (Inr errors)
  from onSubmitMapping_gate [OF this] Inr assms show ?thesis
    by (cases "errors = []") (auto simp: session_invariant_def)
qed

lemma importTransactions_keeps:
  "parsedData (fst (importTransactions h s)) = parsedData s"
  "csvHeaders (fst (importTransactions h s)) = csvHeaders s"
  "csvData (fst (importTransactions h s)) = csvData s"
  by (simp_all add: importTransactions_def Let_def split: option.splits sum.splits)

lemma reachable_invariant:
  assumes "reachable s"
  shows "session_invariant s"
  using assms
proof (induction rule: reachable.induct)
  case reach_initial
  show ?case by (rule invariant_initial)
next
  case (reach_handleFile s f)
  then show ?case by (simp add: invariant_handleFile)
next
  case (reach_mode s m)
  then show ?case by (simp add: session_invariant_def)
next
  case (reach_template s t)
  then show ?case by (simp add: session_invariant_def)
next
  case (reach_processFile s)
  then show ?case by (simp add: invariant_processFile)
next
  case (reach_onSubmitMapping s vals)
  then show ?case by (simp add: invariant_onSubmitMapping)
next
  case (reach_clear s)
  then show ?case by (simp add: session_invariant_def clear_selection_def)
next
  case (reach_select_all s)
  then show ?case by (simp add: session_invariant_def select_all_def)
next
  case (reach_toggle s index checked)
  then show ?case by (simp add: session_invariant_def toggle_row_def)
next
  case (reach_cancel s)
  then show ?case by (simp add: session_invariant_def cancel_preview_def)
next
  case (reach_import s h)
  then show ?case by (simp add: session_invariant_def importTransactions_keeps)
qed

lemma validated_rows_pass:
  assumes "validateTransactions ts fmt = Inr []"
  shows "\<forall>t\<in>set ts. date_ok fmt t \<and> amount_ok t \<and> description_ok t"
proof (cases "\<forall>t\<in>set ts. well_typed t")
  case True
  have "concat (map (\<lambda>(i, t). row_issues fmt i t) (zip [0..<length ts] ts)) = []"
    using validate_rows_issues [OF True, of fmt 0 "[]"] assms
    by (simp add: validateTransactions_def)
  then have "\<forall>p\<in>set (zip [0..<length ts] ts). date_ok fmt (snd p) \<and> amount_ok (snd p) \<and>
      description_ok (snd p)"
    by (auto simp: row_issues_empty)
  with all_zip_index [where ts = ts
      and P = "\<lambda>t. date_ok fmt t \<and> amount_ok t \<and> description_ok t"]
  show ?thesis
    by blast
next
  case False
  from validate_rows_untyped [OF this, of fmt 0 "[]"] assms show ?thesis
    by (simp add: validateTransactions_def)
qed

lemma committed_rows_validated:
  assumes "reachable s" "auth_user h = Some uid" "importTransactions h s = (s', Some batch)"
  shows "\<exists>fmt. \<forall>b\<in>set batch. \<exists>i<length (parsedData s).
     to_db h uid (parsedData s ! i) i = Inr b \<and> date_ok fmt (parsedData s ! i) \<and>
     amount_ok (parsedData s ! i) \<and> description_ok (parsedData s ! i)"
proof -
  from reachable_invariant [OF assms(1)] obtain fmt where
    "validateTransactions (parsedData s) fmt = Inr []"
    by (auto simp: session_invariant_def)
  from validated_rows_pass [OF this]
  have ok: "\<forall>i<length (parsedData s). date_ok fmt (parsedData s ! i) \<and>
      amount_ok (parsedData s ! i) \<and> description_ok (parsedData s ! i)"
    by simp
  have "\<forall>b\<in>set batch. \<exists>i<length (parsedData s).
     to_db h uid (parsedData s ! i) i = Inr b \<and> date_ok fmt (parsedData s ! i) \<and>
     amount_ok (parsedData s ! i) \<and> description_ok (parsedData s ! i)"
  proof
    fix b
    assume "b \<in> set batch"
    from batch_member [OF assms(2,3) this] obtain i where
      "i < length (parsedData s)" "to_db h uid (parsedData s ! i) i = Inr b"
      by blast
    with ok show "\<exists>i<length (parsedData s).
       to_db h uid (parsedData s ! i) i = Inr b \<and> date_ok fmt (parsedData s ! i) \<and>
       amount_ok (parsedData s ! i) \<and> description_ok (parsedData s ! i)"
      by blast
  qed
  then show ?thesis ..
qed

lemma reachable_validates:
  assumes "reachable s"
  shows "\<exists>errors. validateTransactions (mapCsvToTransactions (csvHeaders s) (csvData s) vals)
     (dateFormat vals) = Inr errors"
  using reachable_invariant [OF assms] by (intro table_validates) (simp add: session_invariant_def)

text \<open>
  Claim C1. In standard mode, once the file is tokenized and the template found, the
  validator returns a list of issues; if the list is not empty the session goes to the
  error state and the candidates kept for the preview are left as they were, so that no
  candidate of the batch is among them; if it is empty the session goes to the preview
  with all the candidates of the batch. In advanced mode the session waits in the mapping
  state, and the submitted mapping meets the same gate. In every session the page can
  reach, the validator returns on the kept table, every candidate kept for the preview
  passed the three checks under one layout, and every row of a batch handed to the insert
  is built from such a candidate: no record that fails validation is committed.
\<close>

theorem validation_gate:
  "(chosen_file s = Some f \<and> file_text f = Inr content \<and>
    parseRawCSV content = Inr (headers, data) \<and> uploadMode s = Standard \<and>
    find (\<lambda>t. template_id t = selectedTemplate s) bankTemplates = Some template \<longrightarrow>
      (\<exists>errors.
         validateTransactions
           (mapCsvToTransactions headers data (template_mapping template headers))
           (template_dateFormat template) = Inr errors \<and>
         validationErrors (processFile s) = errors \<and>
         (errors \<noteq> [] \<longrightarrow>
            uploadStatus (processFile s) = Failed \<and>
            parsedData (processFile s) = parsedData s) \<and>
         (errors = [] \<longrightarrow>
            uploadStatus (processFile s) = Preview \<and>
            parsedData (processFile s) =
              mapCsvToTransactions headers data (template_mapping template headers)))) \<and>
   (chosen_file s = Some f \<and> file_text f = Inr content \<and>
    parseRawCSV content = Inr (headers, data) \<and> uploadMode s = Advanced \<longrightarrow>
      uploadStatus (processFile s) = Mapping \<and> parsedData (processFile s) = parsedData s \<and>
      csvHeaders (processFile s) = headers \<and> csvData (processFile s) = data) \<and>
   (validateTransactions (mapCsvToTransactions (csvHeaders s) (csvData s) vals)
      (dateFormat vals) = Inr errors \<longrightarrow>
      validationErrors (onSubmitMapping vals s) = errors \<and>
      (errors \<noteq> [] \<longrightarrow>
         uploadStatus (onSubmitMapping vals s) = Failed \<and>
         parsedData (onSubmitMapping vals s) = parsedData s) \<and>
      (errors = [] \<longrightarrow>
         uploadStatus (onSubmitMapping vals s) = Preview \<and>
         parsedData (onSubmitMapping vals s) =
           mapCsvToTransactions (csvHeaders s) (csvData s) vals)) \<and>
   (reachable s \<longrightarrow>
      (\<exists>errors. validateTransactions (mapCsvToTransactions (csvHeaders s) (csvData s) vals)
         (dateFormat vals) = Inr errors) \<and>
      (\<exists>fmt. \<forall>t\<in>set (parsedData s). date_ok fmt t \<and> amount_ok t \<and> description_ok t) \<and>
      (auth_user h = Some uid \<and> importTransactions h s = (s', Some batch) \<longrightarrow>
         (\<exists>fmt. \<forall>b\<in>set batch. \<exists>i<length (parsedData s).
            to_db h uid (parsedData s ! i) i = Inr b \<and> date_ok fmt (parsedData s ! i) \<and>
            amount_ok (parsedData s ! i) \<and> description_ok (parsedData s ! i))))"
proof (intro conjI impI)
  assume a: "chosen_file s = Some f \<and> file_text f = Inr content \<and>
    parseRawCSV content = Inr (headers, data) \<and> uploadMode s = Standard \<and>
    find (\<lambda>t. template_id t = selectedTemplate s) bankTemplates = Some template"
  then have rows: "\<forall>row\<in>set data. length row = length headers"
    by (intro parseRawCSV_row_lengths [of content]) simp
  from table_validates [OF rows] obtain errors where
    e: "validateTransactions
           (mapCsvToTransactions headers data (template_mapping template headers))
           (template_dateFormat template) = Inr errors"
    by blast
  from a have p: "chosen_file s = Some f" "file_text f = Inr content"
    "parseRawCSV content = Inr (headers, data)" "uploadMode s = Standard"
    "find (\<lambda>t. template_id t = selectedTemplate s) bankTemplates = Some template"
    by simp_all
  note g = processFile_gate [OF p e]
  show "\<exists>errors.
         validateTransactions
           (mapCsvToTransactions headers data (template_mapping template headers))
           (template_dateFormat template) = Inr errors \<and>
         validationErrors (processFile s) = errors \<and>
         (errors \<noteq> [] \<longrightarrow>
            uploadStatus (processFile s) = Failed \<and>
            parsedData (processFile s) = parsedData s) \<and>
         (errors = [] \<longrightarrow>
            uploadStatus (processFile s) = Preview \<and>
            parsedData (processFile s) =
              mapCsvToTransactions headers data (template_mapping template headers))"
    using e g by (intro exI [of _ errors]) simp
next
  assume a: "chosen_file s = Some f \<and> file_text f = Inr content \<and>
    parseRawCSV content = Inr (headers, data) \<and> uploadMode s = Advanced"
  then have p: "chosen_file s = Some f" "file_text f = Inr content"
    "parseRawCSV content = Inr (headers, data)" "uploadMode s = Advanced"
    by simp_all
  show "uploadStatus (processFile s) = Mapping" "parsedData (processFile s) = parsedData s"
    by (rule processFile_advanced [OF p])+
  show "csvHeaders (processFile s) = headers" "csvData (processFile s) = data"
    by (rule processFile_table [OF p(1,2,3)])+
next
  assume a: "validateTransactions (mapCsvToTransactions (csvHeaders s) (csvData s) vals)
      (dateFormat vals) = Inr errors"
  note g = onSubmitMapping_gate [OF a]
  show "validationErrors (onSubmitMapping vals s) = errors"
    by (rule g)
  show "uploadStatus (onSubmitMapping vals s) = Failed" if "errors \<noteq> []"
    using g that by simp
  show "parsedData (onSubmitMapping vals s) = parsedData s" if "errors \<noteq> []"
    using g that by simp
  show "uploadStatus (onSubmitMapping vals s) = Preview" if "errors = []"
    using g that by simp
  show "parsedData (onSubmitMapping vals s) =
      mapCsvToTransactions (csvHeaders s) (csvData s) vals" if "errors = []"
    using g that by simp
next
  assume r: "reachable s"
  show "\<exists>errors. validateTransactions (mapCsvToTransactions (csvHeaders s) (csvData s) vals)
         (dateFormat vals) = Inr errors"
    by (rule reachable_validates [OF r])
  from reachable_invariant [OF r] obtain fmt where
    "validateTransactions (parsedData s) fmt = Inr []"
    by (auto simp: session_invariant_def)
  from validated_rows_pass [OF this]
  show "\<exists>fmt. \<forall>t\<in>set (parsedData s). date_ok fmt t \<and> amount_ok t \<and> description_ok t"
    by blast
  assume "auth_user h = Some uid \<and> importTransactions h s = (s', Some batch)"
  then show "\<exists>fmt. \<forall>b\<in>set batch. \<exists>i<length (parsedData s).
      to_db h uid (parsedData s ! i) i = Inr b \<and> date_ok fmt (parsedData s ! i) \<and>
      amount_ok (parsedData s ! i) \<and> description_ok (parsedData s ! i)"
    using committed_rows_validated [OF r] by blast
qed

lemma example_tables:
  "parseRawCSV ''date,description,amount\<newline>2024-01-05,Coffee,-50\<newline>2024-01-06,Tea,20'' =
     Inr ([''date'', ''description'', ''amount''],
          [[''2024-01-05'', ''Coffee'', ''-50''], [''2024-01-06'', ''Tea'', ''20'']])"
  "parseRawCSV ''date,description,amount\<newline>2024-01-05,Coffee,-50\<newline>2024-01-06,Tea,abc\<newline>2024-01-07,Bus,3'' =
     Inr ([''date'', ''description'', ''amount''],
          [[''2024-01-05'', ''Coffee'', ''-50''], [''2024-01-06'', ''Tea'', ''abc''],
           [''2024-01-07'', ''Bus'', ''3'']])"
  by code_simp+

lemma example_template:
  "find (\<lambda>t. template_id t = ''generic'') bankTemplates = Some (hd bankTemplates)"
  by (simp add: bankTemplates_def)

lemma example_validations:
  "validateTransactions
     (mapCsvToTransactions [''date'', ''description'', ''amount'']
        [[''2024-01-05'', ''Coffee'', ''-50''], [''2024-01-06'', ''Tea'', ''20'']]
        (template_mapping (hd bankTemplates) [''date'', ''description'', ''amount'']))
     (template_dateFormat (hd bankTemplates)) = Inr []"
  "validateTransactions
     (mapCsvToTransactions [''date'', ''description'', ''amount'']
        [[''2024-01-05'', ''Coffee'', ''-50''], [''2024-01-06'', ''Tea'', ''abc''],
         [''2024-01-07'', ''Bus'', ''3'']]
        (template_mapping (hd bankTemplates) [''date'', ''description'', ''amount'']))
     (template_dateFormat (hd bankTemplates)) = Inr [amount_issue 1 ''abc'']"
  by code_simp+

lemma example_blank_table:
  "parseRawCSV example_blank_text =
     Inr ([''date'', ''description'', ''amount''], [[''2024-01-05'', [], ''-50'']])"
  by code_simp

lemma example_blank_validation:
  "validateTransactions
     (mapCsvToTransactions [''date'', ''description'', ''amount'']
        [[''2024-01-05'', [], ''-50'']]
        (template_mapping (hd bankTemplates) [''date'', ''description'', ''amount'']))
     (template_dateFormat (hd bankTemplates)) = Inr [''Row 1: Missing description'']"
  by code_simp

theorem validation_gate_witness:
  "uploadStatus (processFile (handleFile example_file_bad initial_session)) = Failed \<and>
   validationErrors (processFile (handleFile example_file_bad initial_session)) =
     [amount_issue 1 ''abc''] \<and>
   parsedData (processFile (handleFile example_file_bad initial_session)) = [] \<and>
   uploadStatus (processFile (handleFile example_file_good initial_session)) = Preview \<and>
   length (parsedData (processFile (handleFile example_file_good initial_session))) = 2 \<and>
   uploadStatus (processFile (handleFile example_file_good
     (initial_session\<lparr>uploadMode := Advanced\<rparr>))) = Mapping \<and>
   uploadStatus
     (onSubmitMapping
        (template_mapping (hd bankTemplates) [''date'', ''description'', ''amount''])
        (processFile (handleFile example_file_bad (initial_session\<lparr>uploadMode := Advanced\<rparr>)))) =
     Failed \<and>
   reachable (processFile (handleFile example_file_good initial_session)) \<and>
   (\<exists>fmt. list_all (\<lambda>t. date_ok fmt t \<and> amount_ok t \<and> description_ok t)
      (parsedData (processFile (handleFile example_file_good initial_session)))) \<and>
   parseRawCSV example_blank_text =
     Inr ([''date'', ''description'', ''amount''], [[''2024-01-05'', [], ''-50'']]) \<and>
   uploadStatus (processFile (handleFile example_file_blank initial_session)) = Failed \<and>
   validationErrors (processFile (handleFile example_file_blank initial_session)) =
     [''Row 1: Missing description''] \<and>
   parsedData (processFile (handleFile example_file_blank initial_session)) = []"
proof -
  let ?H = "[''date'', ''description'', ''amount'']"
  let ?G = "[[''2024-01-05'', ''Coffee'', ''-50''], [''2024-01-06'', ''Tea'', ''20'']]"
  let ?B = "[[''2024-01-05'', ''Coffee'', ''-50''], [''2024-01-06'', ''Tea'', ''abc''],
           [''2024-01-07'', ''Bus'', ''3'']]"
  let ?good = "handleFile example_file_good initial_session"
  let ?bad = "handleFile example_file_bad initial_session"
  let ?adv_good = "handleFile example_file_good (initial_session\<lparr>uploadMode := Advanced\<rparr>)"
  let ?adv_bad = "handleFile example_file_bad (initial_session\<lparr>uploadMode := Advanced\<rparr>)"
  let ?vals = "template_mapping (hd bankTemplates) ?H"
  have fmt: "dateFormat ?vals = template_dateFormat (hd bankTemplates)"
    "template_dateFormat (hd bankTemplates) = ''YYYY-MM-DD''"
    by (simp_all add: template_mapping_def bankTemplates_def)
  have good: "chosen_file ?good = Some example_file_good \<and>
      file_text example_file_good =
        Inr ''date,description,amount\<newline>2024-01-05,Coffee,-50\<newline>2024-01-06,Tea,20'' \<and>
      parseRawCSV ''date,description,amount\<newline>2024-01-05,Coffee,-50\<newline>2024-01-06,Tea,20'' =
        Inr (?H, ?G) \<and>
      uploadMode ?good = Standard \<and>
      find (\<lambda>t. template_id t = selectedTemplate ?good) bankTemplates = Some (hd bankTemplates)"
    by (simp add: handleFile_def example_file_good_def initial_session_def example_tables
        example_template)
  have bad: "chosen_file ?bad = Some example_file_bad \<and>
      file_text example_file_bad =
        Inr ''date,description,amount\<newline>2024-01-05,Coffee,-50\<newline>2024-01-06,Tea,abc\<newline>2024-01-07,Bus,3'' \<and>
      parseRawCSV ''date,description,amount\<newline>2024-01-05,Coffee,-50\<newline>2024-01-06,Tea,abc\<newline>2024-01-07,Bus,3'' =
        Inr (?H, ?B) \<and>
      uploadMode ?bad = Standard \<and>
      find (\<lambda>t. template_id t = selectedTemplate ?bad) bankTemplates = Some (hd bankTemplates)"
    by (simp add: handleFile_def example_file_bad_def initial_session_def example_tables
        example_template)
  have adv_good: "chosen_file ?adv_good = Some example_file_good \<and>
      file_text example_file_good =
        Inr ''date,description,amount\<newline>2024-01-05,Coffee,-50\<newline>2024-01-06,Tea,20'' \<and>
      parseRawCSV ''date,description,amount\<newline>2024-01-05,Coffee,-50\<newline>2024-01-06,Tea,20'' =
        Inr (?H, ?G) \<and>
      uploadMode ?adv_good = Advanced"
    by (simp add: handleFile_def example_file_good_def initial_session_def example_tables)
  have adv_bad: "chosen_file ?adv_bad = Some example_file_bad \<and>
      file_text example_file_bad =
        Inr ''date,description,amount\<newline>2024-01-05,Coffee,-50\<newline>2024-01-06,Tea,abc\<newline>2024-01-07,Bus,3'' \<and>
      parseRawCSV ''date,description,amount\<newline>2024-01-05,Coffee,-50\<newline>2024-01-06,Tea,abc\<newline>2024-01-07,Bus,3'' =
        Inr (?H, ?B) \<and>
      uploadMode ?adv_bad = Advanced"
    by (simp add: handleFile_def example_file_bad_def initial_session_def example_tables)
  have old: "parsedData ?bad = []"
    by (simp add: handleFile_def example_file_bad_def initial_session_def)
  from validation_gate [THEN conjunct1, rule_format, OF bad]
  have a: "uploadStatus (processFile ?bad) = Failed \<and>
      validationErrors (processFile ?bad) = [amount_issue 1 ''abc''] \<and>
      parsedData (processFile ?bad) = []"
    by (auto simp: example_validations old)
  from validation_gate [THEN conjunct1, rule_format, OF good]
  have b: "uploadStatus (processFile ?good) = Preview \<and>
      parsedData (processFile ?good) = mapCsvToTransactions ?H ?G ?vals"
    by (auto simp: example_validations)
  then have b': "length (parsedData (processFile ?good)) = 2"
    by (simp add: mapCsvToTransactions_def Let_def)
  from validation_gate [THEN conjunct2, THEN conjunct1, rule_format, OF adv_good]
  have c: "uploadStatus (processFile ?adv_good) = Mapping"
    by simp
  from validation_gate [THEN conjunct2, THEN conjunct1, rule_format, OF adv_bad]
  have t: "csvHeaders (processFile ?adv_bad) = ?H" "csvData (processFile ?adv_bad) = ?B"
    by simp_all
  have "validateTransactions
      (mapCsvToTransactions (csvHeaders (processFile ?adv_bad)) (csvData (processFile ?adv_bad))
         ?vals) (dateFormat ?vals) = Inr [amount_issue 1 ''abc'']"
    unfolding t fmt(1) by (rule example_validations)
  from validation_gate [THEN conjunct2, THEN conjunct2, THEN conjunct1, rule_format, OF this]
  have d: "uploadStatus (onSubmitMapping ?vals (processFile ?adv_bad)) = Failed"
    by simp
  have r: "reachable (processFile ?good)"
    by (intro reachable.intros)
  from validation_gate [THEN conjunct2, THEN conjunct2, THEN conjunct2, rule_format, OF r]
  have e: "\<exists>fmt. list_all (\<lambda>t. date_ok fmt t \<and> amount_ok t \<and> description_ok t)
      (parsedData (processFile ?good))"
    by (simp add: list_all_iff)
  let ?blank = "handleFile example_file_blank initial_session"
  have blank: "chosen_file ?blank = Some example_file_blank \<and>
      file_text example_file_blank = Inr example_blank_text \<and>
      parseRawCSV example_blank_text = Inr (?H, [[''2024-01-05'', [], ''-50'']]) \<and>
      uploadMode ?blank = Standard \<and>
      find (\<lambda>t. template_id t = selectedTemplate ?blank) bankTemplates = Some (hd bankTemplates)"
    by (simp add: handleFile_def example_file_blank_def initial_session_def example_blank_table
        example_template)
  have old_blank: "parsedData ?blank = []"
    by (simp add: handleFile_def example_file_blank_def initial_session_def)
  from validation_gate [THEN conjunct1, rule_format, OF blank]
  have f: "uploadStatus (processFile ?blank) = Failed \<and>
      validationErrors (processFile ?blank) = [''Row 1: Missing description''] \<and>
      parsedData (processFile ?blank) = []"
    by (auto simp: example_blank_validation old_blank)
  show ?thesis
    using a b b' c d r e f example_blank_table by simp
qed


subsection \<open>Date at commit\<close>

lemma mapCsvToTransactions_layout:
  "mapCsvToTransactions headers data (vals\<lparr>dateFormat := fmt\<rparr>) =
     mapCsvToTransactions headers data vals"
  by (simp add: mapCsvToTransactions_def map_row_def Let_def)

lemma onSubmitMapping_status:
  "uploadStatus (onSubmitMapping vals s) = Preview \<longleftrightarrow>
     validateTransactions (mapCsvToTransactions (csvHeaders s) (csvData s) vals)
       (dateFormat vals) = Inr []"
  by (simp add: onSubmitMapping_def Let_def split: sum.splits)

lemma onSubmitMapping_preview:
  assumes "uploadStatus (onSubmitMapping vals s) = Preview"
  shows "onSubmitMapping vals s =
     s\<lparr>validationErrors := [],
       parsedData := mapCsvToTransactions (csvHeaders s) (csvData s) vals,
       uploadStatus := Preview\<rparr>"
  using assms by (simp add: onSubmitMapping_def Let_def split: sum.splits if_splits)

lemma commit_same_for_layouts:
  assumes "uploadStatus (onSubmitMapping vals s) = Preview"
    "uploadStatus (onSubmitMapping (vals\<lparr>dateFormat := fmt\<rparr>) s) = Preview"
  shows "importTransactions h (onSubmitMapping vals s) =
     importTransactions h (onSubmitMapping (vals\<lparr>dateFormat := fmt\<rparr>) s)"
  unfolding onSubmitMapping_preview [OF assms(1)] onSubmitMapping_preview [OF assms(2)]
    mapCsvToTransactions_layout ..

lemma to_db_date:
  assumes "to_db h uid t idx = Inr d"
  shows "date_toISOString h (get_prop t ''date'') = Inr (db_transaction_date d)"
  using assms
  by (cases "get_prop t ''amount''") (auto simp: to_db_def Let_def split: sum.splits)

lemma parseDate_ambiguous:
  "parseDate ''01/02/2024'' ''DD/MM/YYYY'' =
     Some \<lparr>fullYear = 2024, month0 = 1, dayOfMonth = 1\<rparr>"
  "parseDate ''01/02/2024'' ''MM/DD/YYYY'' =
     Some \<lparr>fullYear = 2024, month0 = 0, dayOfMonth = 2\<rparr>"
  "parseDate ''0001-01-01T00:00Z'' ''DD/MM/YYYY'' =
     Some \<lparr>fullYear = 10000, month0 = 0, dayOfMonth = 1\<rparr>"
  by code_simp+

lemma example_dmy_valid:
  "validateTransactions [example_dmy_candidate] ''DD/MM/YYYY'' = Inr []"
  by (simp add: validateTransactions_def example_dmy_candidate_def get_prop_def
      parseDate_ambiguous parse_amount_examples isNaN_def trim_def is_whitespace_def)

lemma example_dmy_commit:
  assumes "auth_user h = Some uid" "parsedData s = [example_dmy_candidate]"
    "selectedTransactions s = []"
  shows "snd (importTransactions h s) =
     Some [\<lparr>db_id = uuidv4 h 0, db_transaction_date = ''0001-01-01T00:00:00.000Z'',
            db_description = Str ''Coffee'', db_amount = Num (- 5),
            db_category = Str ''Uncategorized'', db_type = Str ''expense'',
            db_user_id = uid, db_created_at = now_iso h\<rparr>]"
  unfolding importTransactions_submitted [OF assms(1)] assms(2,3)
  by (simp add: convert_row_def to_db_def example_dmy_candidate_def get_prop_def
      parse_amount_examples iso_date_time_example Math_abs_def negate_def filter_Boolean_def)

text \<open>
  Claim C9. The date of a committed row is what the engine makes of the raw date text
  of the candidate, \<open>new Date(raw).toISOString()\<close>; the layout of the session has no
  part in it: two sessions that differ in the layout alone and both reach the preview
  commit the same. The text \<open>01/02/2024\<close> is accepted under day-month-year as
  1 February and under month-day-year as 2 January. And there is a candidate that passes
  validation under day-month-year, its date read as 1 January 10000, for which the
  commit, whatever the engine does outside the standard forms, produces the date
  1 January of the year 1.
\<close>

theorem commit_date_ignores_layout:
  "(uploadStatus (onSubmitMapping vals s) = Preview \<and>
    uploadStatus (onSubmitMapping (vals\<lparr>dateFormat := fmt\<rparr>) s) = Preview \<longrightarrow>
      importTransactions h (onSubmitMapping vals s) =
        importTransactions h (onSubmitMapping (vals\<lparr>dateFormat := fmt\<rparr>) s)) \<and>
   (to_db h uid t idx = Inr d \<longrightarrow>
      date_toISOString h (get_prop t ''date'') = Inr (db_transaction_date d)) \<and>
   parseDate ''01/02/2024'' ''DD/MM/YYYY'' =
     Some \<lparr>fullYear = 2024, month0 = 1, dayOfMonth = 1\<rparr> \<and>
   parseDate ''01/02/2024'' ''MM/DD/YYYY'' =
     Some \<lparr>fullYear = 2024, month0 = 0, dayOfMonth = 2\<rparr> \<and>
   get_prop example_dmy_candidate ''date'' = Str ''0001-01-01T00:00Z'' \<and>
   validateTransactions [example_dmy_candidate] ''DD/MM/YYYY'' = Inr [] \<and>
   parseDate ''0001-01-01T00:00Z'' ''DD/MM/YYYY'' =
     Some \<lparr>fullYear = 10000, month0 = 0, dayOfMonth = 1\<rparr> \<and>
   (auth_user h = Some uid \<and> parsedData s = [example_dmy_candidate] \<and>
    selectedTransactions s = [] \<longrightarrow>
      snd (importTransactions h s) =
        Some [\<lparr>db_id = uuidv4 h 0, db_transaction_date = ''0001-01-01T00:00:00.000Z'',
               db_description = Str ''Coffee'', db_amount = Num (- 5),
               db_category = Str ''Uncategorized'', db_type = Str ''expense'',
               db_user_id = uid, db_created_at = now_iso h\<rparr>])"
proof -
  have "get_prop example_dmy_candidate ''date'' = Str ''0001-01-01T00:00Z''"
    by (simp add: example_dmy_candidate_def get_prop_def)
  then show ?thesis
    using commit_same_for_layouts [of vals s fmt h] to_db_date [of h uid t idx d]
      parseDate_ambiguous example_dmy_valid example_dmy_commit [of h uid s]
    by blast
qed

theorem commit_date_ignores_layout_witness:
  "uploadStatus
     (onSubmitMapping
        \<lparr>dateColumn = ''date'', amountColumn = ''amount'', descriptionColumn = ''description'',
         categoryColumn = None, typeColumn = None, dateFormat = ''DD/MM/YYYY'',
         defaultCategory = None, defaultType = None\<rparr>
        (initial_session\<lparr>csvHeaders := [''date'', ''description'', ''amount''],
           csvData := [[''01/02/2024'', ''Coffee'', ''5'']]\<rparr>)) = Preview \<and>
   uploadStatus
     (onSubmitMapping
        \<lparr>dateColumn = ''date'', amountColumn = ''amount'', descriptionColumn = ''description'',
         categoryColumn = None, typeColumn = None, dateFormat = ''MM/DD/YYYY'',
         defaultCategory = None, defaultType = None\<rparr>
        (initial_session\<lparr>csvHeaders := [''date'', ''description'', ''amount''],
           csvData := [[''01/02/2024'', ''Coffee'', ''5'']]\<rparr>)) = Preview \<and>
   importTransactions example_host
     (onSubmitMapping
        \<lparr>dateColumn = ''date'', amountColumn = ''amount'', descriptionColumn = ''description'',
         categoryColumn = None, typeColumn = None, dateFormat = ''DD/MM/YYYY'',
         defaultCategory = None, defaultType = None\<rparr>
        (initial_session\<lparr>csvHeaders := [''date'', ''description'', ''amount''],
           csvData := [[''01/02/2024'', ''Coffee'', ''5'']]\<rparr>)) =
   importTransactions example_host
     (onSubmitMapping
        \<lparr>dateColumn = ''date'', amountColumn = ''amount'', descriptionColumn = ''description'',
         categoryColumn = None, typeColumn = None, dateFormat = ''MM/DD/YYYY'',
         defaultCategory = None, defaultType = None\<rparr>
        (initial_session\<lparr>csvHeaders := [''date'', ''description'', ''amount''],
           csvData := [[''01/02/2024'', ''Coffee'', ''5'']]\<rparr>)) \<and>
   snd (importTransactions example_host
          (initial_session\<lparr>parsedData := [example_dmy_candidate]\<rparr>)) =
     Some [\<lparr>db_id = ''id-0'', db_transaction_date = ''0001-01-01T00:00:00.000Z'',
            db_description = Str ''Coffee'', db_amount = Num (- 5),
            db_category = Str ''Uncategorized'', db_type = Str ''expense'',
            db_user_id = ''user-1'', db_created_at = ''2025-01-01T00:00:00.000Z''\<rparr>]"
proof -
  let ?V = "\<lparr>dateColumn = ''date'', amountColumn = ''amount'', descriptionColumn = ''description'',
         categoryColumn = None, typeColumn = None, dateFormat = ''DD/MM/YYYY'',
         defaultCategory = None, defaultType = None\<rparr>"
  let ?S = "initial_session\<lparr>csvHeaders := [''date'', ''description'', ''amount''],
           csvData := [[''01/02/2024'', ''Coffee'', ''5'']]\<rparr>"
  let ?P = "initial_session\<lparr>parsedData := [example_dmy_candidate]\<rparr>"
  have m: "mapCsvToTransactions [''date'', ''description'', ''amount'']
      [[''01/02/2024'', ''Coffee'', ''5'']] ?V =
      [[''date'' \<mapsto> Str ''01/02/2024'', ''amount'' \<mapsto> Str ''5'',
        ''description'' \<mapsto> Str ''Coffee'', ''category'' \<mapsto> Str ''Uncategorized'',
        ''type'' \<mapsto> Str ''expense'']]"
    by (simp add: mapCsvToTransactions_def map_row_def indexOf_def truthy_def or_else_def
        cell_def Let_def)
  have v: "validateTransactions
      [[''date'' \<mapsto> Str ''01/02/2024'', ''amount'' \<mapsto> Str ''5'',
        ''description'' \<mapsto> Str ''Coffee'', ''category'' \<mapsto> Str ''Uncategorized'',
        ''type'' \<mapsto> Str ''expense'']] fmt = Inr []"
    if "fmt = ''DD/MM/YYYY'' \<or> fmt = ''MM/DD/YYYY''" for fmt
    using that
    by (auto simp: validateTransactions_def get_prop_def parseDate_ambiguous
        parse_amount_examples isNaN_def trim_def is_whitespace_def)
  have a: "uploadStatus (onSubmitMapping ?V ?S) = Preview"
    unfolding onSubmitMapping_status by (simp add: m v)
  have "?V\<lparr>dateFormat := ''MM/DD/YYYY''\<rparr> =
      \<lparr>dateColumn = ''date'', amountColumn = ''amount'', descriptionColumn = ''description'',
         categoryColumn = None, typeColumn = None, dateFormat = ''MM/DD/YYYY'',
         defaultCategory = None, defaultType = None\<rparr>"
    by simp
  moreover have b: "uploadStatus (onSubmitMapping (?V\<lparr>dateFormat := ''MM/DD/YYYY''\<rparr>) ?S) = Preview"
    unfolding onSubmitMapping_status mapCsvToTransactions_layout by (simp add: m v)
  moreover have "importTransactions example_host (onSubmitMapping ?V ?S) =
      importTransactions example_host (onSubmitMapping (?V\<lparr>dateFormat := ''MM/DD/YYYY''\<rparr>) ?S)"
    using commit_date_ignores_layout [of ?V ?S "''MM/DD/YYYY''" example_host, THEN conjunct1] a b
    by blast
  moreover have "snd (importTransactions example_host ?P) =
     Some [\<lparr>db_id = ''id-0'', db_transaction_date = ''0001-01-01T00:00:00.000Z'',
            db_description = Str ''Coffee'', db_amount = Num (- 5),
            db_category = Str ''Uncategorized'', db_type = Str ''expense'',
            db_user_id = ''user-1'', db_created_at = ''2025-01-01T00:00:00.000Z''\<rparr>]"
    using commit_date_ignores_layout [of _ ?P _ example_host "''user-1''"]
    by (simp add: example_host_def initial_session_def string_of_nat_examples)
  ultimately show ?thesis
    using a by simp
qed

end
